theory Spec2Isabelle
  imports Complex_Main "HOL-Library.Signed_Division"
begin

section \<open>mod\_rednibblebill: nibble billing against a redis counter\<close>

text \<open>
  A shallow embedding of \<^verbatim>\<open>src/mod_rednibblebill.c\<close>.

  Conventions of the embedding.
  \<^item> \<^verbatim>\<open>switch_time_t\<close> (microseconds since the epoch, a signed 64-bit integer) is
    \<^typ>\<open>int\<close>: timestamps and their differences stay far below \<open>2^63\<close>.
  \<^item> \<^verbatim>\<open>double\<close> is \<^typ>\<open>real\<close>: money arithmetic is exact, rounding of the binary
    floating-point format is not modelled.
  \<^item> The conversion \<^verbatim>\<open>(int)\<close> of a double to the 32-bit \<^verbatim>\<open>int\<close> is defined in C only
    when the truncated value is representable; outside that range, and for a value
    that is not finite, the conversion is an error of the model.
  \<^item> A channel variable holding a number is kept as the number that \<^verbatim>\<open>atof\<close> or
    \<^verbatim>\<open>atol\<close> reads from its text; \<open>None\<close> is the variable being absent (for the
    variables tested with \<^verbatim>\<open>zstr\<close> or \<^verbatim>\<open>switch_strlen_zero\<close>: absent or empty).
  \<^item> The host runtime, the redis server, the wall clock and the log are a \<open>world\<close>
    record threaded through every function: the clock, the fate of each connection
    attempt, of each redis command and of each executed application are oracles,
    read in order; everything the module does to its collaborators is appended to a
    trace, newest event first.
  \<^item> \<^verbatim>\<open>session\<close> and its channel are never \<^verbatim>\<open>NULL\<close>; the global mutex exists (the load
    function creates it, nested) and is held by the one thread that runs the operation,
    so the lock is the depth to which that thread holds it.
\<close>

subsection \<open>Data\<close>

datatype error = Undefined_conversion | Null_dereference

text \<open>
  Modelled from the spec: the enumeration \<^verbatim>\<open>switch_status_t\<close> is declared in the host's
  \<^verbatim>\<open>switch_types.h\<close>, which is not part of the module. Its first two members are
  \<^verbatim>\<open>SWITCH_STATUS_SUCCESS\<close> and \<^verbatim>\<open>SWITCH_STATUS_FALSE\<close>, of values 0 and 1; with them a
  failed connection in \<^verbatim>\<open>get_balance\<close> reads as the balance 1.0 that the specification
  gives for every read failure.
\<close>

datatype switch_status = SWITCH_STATUS_SUCCESS | SWITCH_STATUS_FALSE

fun status_value :: "switch_status \<Rightarrow> int" where
  "status_value SWITCH_STATUS_SUCCESS = 0"
| "status_value SWITCH_STATUS_FALSE = 1"

datatype log_level =
  SWITCH_LOG_DEBUG | SWITCH_LOG_INFO | SWITCH_LOG_WARNING | SWITCH_LOG_ERROR | SWITCH_LOG_CRIT

text \<open>The two lifecycle states the module tests for, and every other one.\<close>

datatype channel_state = CS_REPORTING | CS_HANGUP | CS_OTHER

record rednibble_data =
  lastts :: int
  total_billed :: real
  pausets :: int
  bill_adjustments :: real
  lowbal_action_executed :: int

text \<open>
  \<open>total_billed\<close> is the field \<^verbatim>\<open>total\<close> of \<^verbatim>\<open>rednibble_data_t\<close>. The zeroed structure
  that \<^verbatim>\<open>memset\<close> leaves:
\<close>

definition zero_data :: rednibble_data where
  "zero_data =
     \<lparr>lastts = 0, total_billed = 0, pausets = 0, bill_adjustments = 0,
      lowbal_action_executed = 0\<rparr>"

record globals =
  percall_max_amt :: real
  percall_action :: "string option"
  lowbal_amt :: real
  lowbal_action :: "string option"
  nobal_amt :: real
  nobal_action :: "string option"
  global_heartbeat :: int

text \<open>
  A session with its channel: the channel variables the module reads and writes, the
  answer time of the caller profile (\<open>None\<close>: no profile, or no times in it), the
  channel's lifecycle state, and the private slot \<^verbatim>\<open>"_rednibble_data_"\<close>.
\<close>

record session =
  var_rednibble_rate :: "real option"
  var_rednibble_increment :: "int option"
  var_rednibble_account :: "string option"
  var_nobal_amt :: "real option"
  var_lowbal_amt :: "real option"
  var_rednibble_total_billed :: "real option"
  answered :: "int option"
  chan_state :: channel_state
  private_data :: "rednibble_data option"

datatype event =
    Ev_log log_level
  | Ev_bill_event real string
  | Ev_decrby string int
  | Ev_get string
  | Ev_exec_app string
  | Ev_transfer string "rednibble_data option"

text \<open>
  \<open>Ev_bill_event\<close> records a call of \<^verbatim>\<open>bill_event\<close> with its amount and account,
  \<open>Ev_decrby\<close> and \<open>Ev_get\<close> the commands sent to redis, \<open>Ev_exec_app\<close> an application
  run on the session, and \<open>Ev_transfer\<close> a call of \<^verbatim>\<open>transfer_call\<close> with a destination,
  together with the billing data the session holds at that moment.
\<close>

record world =
  mutex :: nat
  time_now :: "nat \<Rightarrow> int"
  ticks :: nat
  connect_ok :: "nat \<Rightarrow> bool"
  connects :: nat
  command_ok :: "nat \<Rightarrow> bool"
  commands :: nat
  app_status :: "nat \<Rightarrow> switch_status"
  app_calls :: nat
  redis_db :: "string \<Rightarrow> int option"
  trace :: "event list"

subsection \<open>The collaborators\<close>

text \<open>
  Modelled from the spec: the host runtime (clock, log, mutex, applications, transfers)
  and the redis client library \<^verbatim>\<open>credis\<close> are used by the module and are not part of it.
  They are modelled at the interface the specification gives them: a clock to read, a
  log to write to, a lock to take and release, an atomic decrement and a read on
  a counter, each of which can fail.
\<close>

definition switch_micro_time_now :: "world \<Rightarrow> int \<times> world" where
  "switch_micro_time_now w = (time_now w (ticks w), w\<lparr>ticks := Suc (ticks w)\<rparr>)"

definition switch_log_printf :: "log_level \<Rightarrow> world \<Rightarrow> world" where
  "switch_log_printf l w = w\<lparr>trace := Ev_log l # trace w\<rparr>"

definition switch_mutex_lock :: "world \<Rightarrow> world" where
  "switch_mutex_lock w = w\<lparr>mutex := Suc (mutex w)\<rparr>"

definition switch_mutex_unlock :: "world \<Rightarrow> world" where
  "switch_mutex_unlock w = w\<lparr>mutex := mutex w - 1\<rparr>"

text \<open>
  The redis client library: a connection attempt, \<^verbatim>\<open>DECRBY\<close> (a key that does not
  exist counts as 0) and \<^verbatim>\<open>GET\<close> (a key that does not exist is an error, as a failed
  command is). The commands return 0 on success; the counter holds an integer, and the
  second component of \<open>credis_get\<close> is the number its text stands for (read on success
  only).
\<close>

definition credis_connect :: "world \<Rightarrow> bool \<times> world" where
  "credis_connect w = (connect_ok w (connects w), w\<lparr>connects := Suc (connects w)\<rparr>)"

definition credis_decrby :: "string \<Rightarrow> int \<Rightarrow> world \<Rightarrow> int \<times> world" where
  "credis_decrby key dec w =
     (let ok = command_ok w (commands w);
          w1 = w\<lparr>commands := Suc (commands w), trace := Ev_decrby key dec # trace w\<rparr>
      in if ok
         then (0, w1\<lparr>redis_db := (redis_db w1)
                 (key \<mapsto> (case redis_db w1 key of None \<Rightarrow> 0 | Some v \<Rightarrow> v) - dec)\<rparr>)
         else (-1, w1))"

definition credis_get :: "string \<Rightarrow> world \<Rightarrow> int \<times> int \<times> world" where
  "credis_get key w =
     (let ok = command_ok w (commands w);
          w1 = w\<lparr>commands := Suc (commands w), trace := Ev_get key # trace w\<rparr>
      in if ok
         then (case redis_db w1 key of None \<Rightarrow> (-1, 0, w1) | Some v \<Rightarrow> (0, v, w1))
         else (-1, 0, w1))"

text \<open>The conversion of a double to the 32-bit \<^verbatim>\<open>int\<close>: truncation, defined in range only.\<close>

definition int_of_double :: "real \<Rightarrow> int option" where
  "int_of_double x =
     (let t = (if 0 \<le> x then \<lfloor>x\<rfloor> else \<lceil>x\<rceil>)
      in if - 2147483648 \<le> t \<and> t \<le> 2147483647 then Some t else None)"

subsection \<open>The module\<close>

definition redis_factory :: "world \<Rightarrow> switch_status \<times> world" where
  "redis_factory w =
     (case credis_connect w of
        (ok, w1) \<Rightarrow>
          if \<not> ok then (SWITCH_STATUS_FALSE, switch_log_printf SWITCH_LOG_ERROR w1)
          else (SWITCH_STATUS_SUCCESS, w1))"

text \<open>
  \<^verbatim>\<open>exec_app\<close> runs an application on the session and returns its status;
  \<^verbatim>\<open>transfer_call\<close> reroutes the session (and its partner leg). Both do nothing without
  a string.
\<close>

definition exec_app :: "string option \<Rightarrow> world \<Rightarrow> switch_status \<times> world" where
  "exec_app app_string w =
     (case app_string of
        None \<Rightarrow> (SWITCH_STATUS_FALSE, w)
      | Some a \<Rightarrow>
          (app_status w (app_calls w),
           w\<lparr>app_calls := Suc (app_calls w), trace := Ev_exec_app a # trace w\<rparr>))"

definition transfer_call :: "session \<Rightarrow> string option \<Rightarrow> world \<Rightarrow> world" where
  "transfer_call s destination w =
     (case destination of
        None \<Rightarrow> w
      | Some d \<Rightarrow> w\<lparr>trace := Ev_transfer d (private_data s) # trace w\<rparr>)"

definition redis_key :: "string \<Rightarrow> string" where
  "redis_key billaccount = ''rn_'' @ billaccount"

definition bill_event :: "real \<Rightarrow> string \<Rightarrow> world \<Rightarrow> error + (switch_status \<times> world)" where
  "bill_event billamount billaccount w =
     (let w0 = w\<lparr>trace := Ev_bill_event billamount billaccount # trace w\<rparr>
      in case redis_factory w0 of
        (st, w1) \<Rightarrow>
          if st \<noteq> SWITCH_STATUS_SUCCESS then Inr (SWITCH_STATUS_FALSE, w1)
          else
            (case int_of_double (real_of_int \<lceil>billamount * 1000000\<rceil>) of
               None \<Rightarrow> Inl Undefined_conversion
             | Some dec \<Rightarrow>
                 (case credis_decrby (redis_key billaccount) dec
                         (switch_log_printf SWITCH_LOG_DEBUG w1) of
                    (r, w2) \<Rightarrow>
                      if r \<noteq> 0
                      then Inr (SWITCH_STATUS_FALSE, switch_log_printf SWITCH_LOG_ERROR w2)
                      else Inr (SWITCH_STATUS_SUCCESS, w2))))"

definition get_balance :: "string \<Rightarrow> world \<Rightarrow> real \<times> world" where
  "get_balance billaccount w =
     (case redis_factory w of
        (st, w1) \<Rightarrow>
          if st \<noteq> SWITCH_STATUS_SUCCESS
          then (real_of_int (status_value SWITCH_STATUS_FALSE), w1)
          else
            (case credis_get (redis_key billaccount)
                    (switch_log_printf SWITCH_LOG_DEBUG w1) of
               (r, str, w2) \<Rightarrow>
                 if r \<noteq> 0 then (1.0, switch_log_printf SWITCH_LOG_ERROR w2)
                 else (real_of_int str / 1000000, switch_log_printf SWITCH_LOG_DEBUG w2)))"

subsection \<open>Pausing\<close>

text \<open>
  \<^verbatim>\<open>rednibblebill_pause\<close> reads the clock, takes the lock, and leaves through the
  \<^verbatim>\<open>return\<close> of its second test when the channel has no billing data.
\<close>

definition rednibblebill_pause :: "session \<Rightarrow> world \<Rightarrow> session \<times> world" where
  "rednibblebill_pause s w =
     (case switch_micro_time_now w of
        (ts, w1) \<Rightarrow>
          (let w2 = switch_mutex_lock w1
           in case private_data s of
                None \<Rightarrow> (s, switch_log_printf SWITCH_LOG_INFO w2)
              | Some d \<Rightarrow>
                  (s\<lparr>private_data := Some (if pausets d = 0 then d\<lparr>pausets := ts\<rparr> else d)\<rparr>,
                   switch_mutex_unlock (switch_log_printf SWITCH_LOG_INFO w2))))"

subsection \<open>Billing\<close>

text \<open>
  The charged units of increment mode, in microseconds, from the elapsed microseconds
  and \<^verbatim>\<open>atol(billincrement)\<close>. The test divides two integers, as C does (towards zero);
  the other branch divides doubles, and with an increment of 0 its quotient is not
  finite, so that its conversion to \<^verbatim>\<open>switch_time_t\<close> is undefined.
\<close>

definition chargedunits :: "int \<Rightarrow> int \<Rightarrow> int option" where
  "chargedunits elapsed inc =
     (if elapsed sdiv 1000000 \<le> inc then Some (inc * 1000000)
      else if inc = 0 then None
      else Some (\<lceil>real_of_int elapsed / (real_of_int inc * 1000000.0)\<rceil> * inc * 1000000))"

text \<open>
  The debit of a computed amount and its bookkeeping (the \<^verbatim>\<open>if\<close> around
  \<^verbatim>\<open>bill_event\<close> in \<^verbatim>\<open>do_billing\<close>). \<open>d\<close> is the billing data, its timestamp already
  advanced.
\<close>

definition do_billing_debit ::
  "real \<Rightarrow> string \<Rightarrow> rednibble_data \<Rightarrow> session \<Rightarrow> world
     \<Rightarrow> error + (rednibble_data \<times> session \<times> world)" where
  "do_billing_debit billamount billaccount d s w =
     (case bill_event billamount billaccount (switch_log_printf SWITCH_LOG_DEBUG w) of
        Inl e \<Rightarrow> Inl e
      | Inr (st, w1) \<Rightarrow>
          if st = SWITCH_STATUS_SUCCESS
          then Inr (d\<lparr>total_billed := total_billed d + billamount, bill_adjustments := 0\<rparr>,
                    s\<lparr>var_rednibble_total_billed := Some (total_billed d + billamount)\<rparr>,
                    w1)
          else Inr (d, s, switch_log_printf SWITCH_LOG_CRIT w1))"

text \<open>
  The charge computation (\<^verbatim>\<open>if ((ts - rednibble_data->lastts) >= 0)\<close> with both its
  branches). \<open>billrate\<close> is \<^verbatim>\<open>atof(billrate)\<close>.
\<close>

definition do_billing_charge ::
  "int \<Rightarrow> real \<Rightarrow> int option \<Rightarrow> string \<Rightarrow> rednibble_data \<Rightarrow> session \<Rightarrow> world
     \<Rightarrow> error + (rednibble_data \<times> session \<times> world)" where
  "do_billing_charge ts billrate billincrement billaccount d s w =
     (if ts - lastts d \<ge> 0 then
        (case billincrement of
           Some inc \<Rightarrow>
             (case chargedunits (ts - lastts d) inc of
                None \<Rightarrow> Inl Undefined_conversion
              | Some cu \<Rightarrow>
                  do_billing_debit
                    ((billrate / 1000000 / 60) * real_of_int cu - bill_adjustments d)
                    billaccount (d\<lparr>lastts := lastts d + cu\<rparr>) s w)
         | None \<Rightarrow>
             do_billing_debit
               ((billrate / 1000000 / 60) * real_of_int (ts - lastts d) - bill_adjustments d)
               billaccount (d\<lparr>lastts := ts\<rparr>) s w)
      else Inr (d, s, if billincrement = None then switch_log_printf SWITCH_LOG_WARNING w
                      else w))"

text \<open>
  Saving the data in the private slot and the balance check after the charge
  (\<^verbatim>\<open>if (channel) { ... }\<close>). The low-balance flag is written through the pointer the
  slot already holds.
\<close>

definition do_billing_verify ::
  "globals \<Rightarrow> real \<Rightarrow> real \<Rightarrow> string \<Rightarrow> rednibble_data \<Rightarrow> session \<Rightarrow> world
     \<Rightarrow> session \<times> world" where
  "do_billing_verify g nobal lowbal billaccount d s w =
     (let s1 = s\<lparr>private_data := Some d\<rparr>
      in if chan_state s1 \<noteq> CS_REPORTING \<and> chan_state s1 \<noteq> CS_HANGUP then
           (case get_balance billaccount w of
              (balance, w1) \<Rightarrow>
                (case (if lowbal_action_executed d = 0 \<and> balance \<le> lowbal then
                         (case exec_app (lowbal_action g)
                                 (switch_log_printf SWITCH_LOG_DEBUG w1) of
                            (st, w2) \<Rightarrow>
                              if st \<noteq> SWITCH_STATUS_SUCCESS
                              then (s1, switch_log_printf SWITCH_LOG_ERROR w2)
                              else (s1\<lparr>private_data :=
                                         Some (d\<lparr>lowbal_action_executed := 1\<rparr>)\<rparr>, w2))
                       else (s1, w1)) of
                   (s2, w3) \<Rightarrow>
                     if balance \<le> nobal then
                       (case rednibblebill_pause s2 (switch_log_printf SWITCH_LOG_CRIT w3) of
                          (s3, w4) \<Rightarrow> (s3, transfer_call s3 (nobal_action g) w4))
                     else (s2, w3)))
         else (s1, w))"

definition do_billing :: "globals \<Rightarrow> session \<Rightarrow> world \<Rightarrow> error + (session \<times> world)" where
  "do_billing g s w =
     (case switch_micro_time_now w of
        (ts, w0) \<Rightarrow>
          (let nobal = (case var_nobal_amt s of None \<Rightarrow> nobal_amt g | Some a \<Rightarrow> a);
               lowbal = (case var_lowbal_amt s of None \<Rightarrow> lowbal_amt g | Some a \<Rightarrow> a)
           in case (var_rednibble_rate s, var_rednibble_account s) of
                (Some billrate, Some billaccount) \<Rightarrow>
                  (let w1 = switch_log_printf SWITCH_LOG_DEBUG w0
                   in case answered s of
                        None \<Rightarrow> Inr (s, w1)
                      | Some ans \<Rightarrow>
                          if ans < 1 then
                            (case get_balance billaccount
                                    (switch_log_printf SWITCH_LOG_DEBUG w1) of
                               (balance, w2) \<Rightarrow>
                                 (let w3 = switch_log_printf SWITCH_LOG_DEBUG w2
                                  in if balance \<le> nobal
                                     then Inr (s, transfer_call s (nobal_action g)
                                                    (switch_log_printf SWITCH_LOG_DEBUG w3))
                                     else Inr (s, w3)))
                          else
                            (let w2 = switch_mutex_lock w1
                             in if (case private_data s of None \<Rightarrow> False
                                    | Some d \<Rightarrow> pausets d > 0)
                                then Inr (s, switch_log_printf SWITCH_LOG_DEBUG
                                               (switch_mutex_unlock w2))
                                else
                                  (case (case private_data s of
                                           None \<Rightarrow>
                                             (zero_data\<lparr>lastts := ans\<rparr>,
                                              switch_log_printf SWITCH_LOG_INFO w2)
                                         | Some d \<Rightarrow> (d, w2)) of
                                     (d, w3) \<Rightarrow>
                                       (case do_billing_charge ts billrate
                                               (var_rednibble_increment s) billaccount d s
                                               (switch_log_printf SWITCH_LOG_DEBUG w3) of
                                          Inl e \<Rightarrow> Inl e
                                        | Inr (d1, s1, w4) \<Rightarrow>
                                            (case do_billing_verify g nobal lowbal
                                                    billaccount d1 s1 w4 of
                                               (s2, w5) \<Rightarrow>
                                                 Inr (s2, switch_mutex_unlock w5))))))
              | _ \<Rightarrow> Inr (s, w0)))"

subsection \<open>Resume, reset, check, adjust\<close>

text \<open>
  \<^verbatim>\<open>rednibblebill_resume\<close> passes the rate variable to \<^verbatim>\<open>atof\<close> without testing it: an
  absent variable is a null pointer there.
\<close>

definition rednibblebill_resume :: "session \<Rightarrow> world \<Rightarrow> error + (session \<times> world)" where
  "rednibblebill_resume s w =
     (case switch_micro_time_now w of
        (ts, w1) \<Rightarrow>
          (case private_data s of
             None \<Rightarrow> Inr (s, switch_log_printf SWITCH_LOG_DEBUG w1)
           | Some d \<Rightarrow>
               if pausets d = 0 then Inr (s, switch_log_printf SWITCH_LOG_DEBUG w1)
               else
                 (case var_rednibble_rate s of
                    None \<Rightarrow> Inl Null_dereference
                  | Some billrate \<Rightarrow>
                      Inr (s\<lparr>private_data := Some
                               (d\<lparr>bill_adjustments := bill_adjustments d
                                     + (billrate / 1000000 / 60) * real_of_int (ts - pausets d),
                                  pausets := 0\<rparr>)\<rparr>,
                           switch_mutex_unlock
                             (switch_log_printf SWITCH_LOG_INFO (switch_mutex_lock w1))))))"

definition rednibblebill_reset :: "session \<Rightarrow> world \<Rightarrow> session \<times> world" where
  "rednibblebill_reset s w =
     (case switch_micro_time_now w of
        (ts, w1) \<Rightarrow>
          (case private_data s of
             None \<Rightarrow> (s, switch_log_printf SWITCH_LOG_INFO w1)
           | Some d \<Rightarrow>
               (s\<lparr>private_data := Some (d\<lparr>lastts := ts\<rparr>)\<rparr>,
                switch_mutex_unlock
                  (switch_log_printf SWITCH_LOG_INFO (switch_mutex_lock w1)))))"

definition rednibblebill_check :: "session \<Rightarrow> world \<Rightarrow> real \<times> world" where
  "rednibblebill_check s w =
     (case private_data s of
        None \<Rightarrow> (- 99999, switch_log_printf SWITCH_LOG_INFO w)
      | Some d \<Rightarrow> (total_billed d, switch_mutex_unlock (switch_mutex_lock w)))"

definition rednibblebill_adjust :: "session \<Rightarrow> real \<Rightarrow> world \<Rightarrow> error + world" where
  "rednibblebill_adjust s amount w =
     (case var_rednibble_account s of
        None \<Rightarrow> Inr w
      | Some billaccount \<Rightarrow>
          (case bill_event (- amount) billaccount w of
             Inl e \<Rightarrow> Inl e
           | Inr (st, w1) \<Rightarrow>
               if st = SWITCH_STATUS_SUCCESS then Inr (switch_log_printf SWITCH_LOG_INFO w1)
               else Inr (switch_log_printf SWITCH_LOG_ERROR w1)))"

subsection \<open>The command surface\<close>

text \<open>
  \<^verbatim>\<open>rednibblebill_app_function\<close> after its parsing: one constructor for each command
  word it accepts, with the argument already converted. Enabling the heartbeat is the
  host's work and leaves the billing state alone.
\<close>

datatype command =
  Cmd_adjust real | Cmd_flush | Cmd_pause | Cmd_resume | Cmd_check | Cmd_reset
  | Cmd_heartbeat int

definition rednibblebill_app_function ::
  "globals \<Rightarrow> command \<Rightarrow> session \<Rightarrow> world \<Rightarrow> error + (session \<times> world)" where
  "rednibblebill_app_function g c s w =
     (case c of
        Cmd_adjust amount \<Rightarrow>
          (case rednibblebill_adjust s amount w of Inl e \<Rightarrow> Inl e | Inr w1 \<Rightarrow> Inr (s, w1))
      | Cmd_flush \<Rightarrow> do_billing g s w
      | Cmd_pause \<Rightarrow> Inr (rednibblebill_pause s w)
      | Cmd_resume \<Rightarrow> rednibblebill_resume s w
      | Cmd_check \<Rightarrow>
          (case rednibblebill_check s w of
             (amount, w1) \<Rightarrow> Inr (s, switch_log_printf SWITCH_LOG_INFO w1))
      | Cmd_reset \<Rightarrow> Inr (rednibblebill_reset s w)
      | Cmd_heartbeat seconds \<Rightarrow> Inr (s, w))"

text \<open>A sequence of commands on one session, stopping at the first error.\<close>

fun run_commands ::
  "globals \<Rightarrow> command list \<Rightarrow> session \<Rightarrow> world \<Rightarrow> error + (session \<times> world)" where
  "run_commands g [] s w = Inr (s, w)"
| "run_commands g (c # cs) s w =
     (case rednibblebill_app_function g c s w of
        Inl e \<Rightarrow> Inl e
      | Inr (s1, w1) \<Rightarrow> run_commands g cs s1 w1)"

subsection \<open>Reading a run\<close>

text \<open>
  The calls of \<^verbatim>\<open>bill_event\<close>, the decrements sent to redis, the number of warnings
  logged, and the reroutes with the billing data the session held when each was made
  (lists newest first).
\<close>

fun bill_calls :: "event list \<Rightarrow> (real \<times> string) list" where
  "bill_calls [] = []"
| "bill_calls (Ev_bill_event a b # es) = (a, b) # bill_calls es"
| "bill_calls (e # es) = bill_calls es"

fun debits :: "event list \<Rightarrow> (string \<times> int) list" where
  "debits [] = []"
| "debits (Ev_decrby k n # es) = (k, n) # debits es"
| "debits (e # es) = debits es"

fun warnings :: "event list \<Rightarrow> nat" where
  "warnings [] = 0"
| "warnings (Ev_log SWITCH_LOG_WARNING # es) = Suc (warnings es)"
| "warnings (e # es) = warnings es"

fun transfers :: "event list \<Rightarrow> (string \<times> rednibble_data option) list" where
  "transfers [] = []"
| "transfers (Ev_transfer a d # es) = (a, d) # transfers es"
| "transfers (e # es) = transfers es"

text \<open>
  The next debit succeeds: the next connection is established and the next command
  is carried out. An amount is convertible when its ceiling in micro-units fits the
  32-bit \<^verbatim>\<open>int\<close> of \<^verbatim>\<open>bill_event\<close>.
\<close>

definition store_ok :: "world \<Rightarrow> bool" where
  "store_ok w \<longleftrightarrow> connect_ok w (connects w) \<and> command_ok w (commands w)"

definition convertible :: "real \<Rightarrow> bool" where
  "convertible a \<longleftrightarrow> int_of_double (real_of_int \<lceil>a * 1000000\<rceil>) \<noteq> None"

text \<open>
  The pieces of \<^verbatim>\<open>do_billing\<close> on an answered session that is not paused: the billing
  data it works on (the private data, or fresh data seeded with the answer time), the
  thresholds after the per-session overrides, the world in which the charge is
  computed (clock read, lock taken, three or four lines logged), and the charged
  microseconds in either mode.
\<close>

definition entry_data :: "session \<Rightarrow> int \<Rightarrow> rednibble_data" where
  "entry_data s ans =
     (case private_data s of None \<Rightarrow> zero_data\<lparr>lastts := ans\<rparr> | Some d \<Rightarrow> d)"

definition nobal_of :: "globals \<Rightarrow> session \<Rightarrow> real" where
  "nobal_of g s = (case var_nobal_amt s of None \<Rightarrow> nobal_amt g | Some a \<Rightarrow> a)"

definition lowbal_of :: "globals \<Rightarrow> session \<Rightarrow> real" where
  "lowbal_of g s = (case var_lowbal_amt s of None \<Rightarrow> lowbal_amt g | Some a \<Rightarrow> a)"

definition charge_world :: "session \<Rightarrow> world \<Rightarrow> world" where
  "charge_world s w =
     (let w2 = switch_mutex_lock
                 (switch_log_printf SWITCH_LOG_DEBUG (snd (switch_micro_time_now w)))
      in switch_log_printf SWITCH_LOG_DEBUG
           (case private_data s of
              None \<Rightarrow> switch_log_printf SWITCH_LOG_INFO w2
            | Some d \<Rightarrow> w2))"

definition charged :: "int option \<Rightarrow> int \<Rightarrow> int option" where
  "charged billincrement elapsed =
     (case billincrement of
        None \<Rightarrow> Some elapsed
      | Some inc \<Rightarrow> chargedunits elapsed inc)"

text \<open>
  The balance that \<^verbatim>\<open>do_billing\<close> reads after the charge, on a session with a rate, an
  account and an answer time, when the charge is defined.
\<close>

definition post_charge_balance :: "session \<Rightarrow> world \<Rightarrow> real option" where
  "post_charge_balance s w =
     (case (var_rednibble_rate s, var_rednibble_account s, answered s) of
        (Some rate, Some acct, Some ans) \<Rightarrow>
          (case do_billing_charge (time_now w (ticks w)) rate (var_rednibble_increment s) acct
                  (entry_data s ans) s (charge_world s w) of
             Inl e \<Rightarrow> None
           | Inr (d1, s1, w1) \<Rightarrow> Some (fst (get_balance acct w1)))
      | _ \<Rightarrow> None)"

text \<open>
  \<^verbatim>\<open>do_billing\<close> charges only a session that has a rate and an account, has been
  answered and is not paused. The billing data and the trace a run ends with, if it
  ends.
\<close>

definition billing_active :: "session \<Rightarrow> bool" where
  "billing_active s =
     (case (var_rednibble_rate s, var_rednibble_account s, answered s) of
        (Some r, Some a, Some ans) \<Rightarrow> 1 \<le> ans \<and> pausets (entry_data s ans) \<le> 0
      | _ \<Rightarrow> False)"

definition result_data :: "error + (session \<times> world) \<Rightarrow> rednibble_data option" where
  "result_data r = (case r of Inl e \<Rightarrow> None | Inr (s, w) \<Rightarrow> private_data s)"

definition result_trace :: "error + (session \<times> world) \<Rightarrow> event list" where
  "result_trace r = (case r of Inl e \<Rightarrow> [] | Inr (s, w) \<Rightarrow> trace w)"

text \<open>The total billed and the pending adjustment of a session; 0 before any billing.\<close>

definition total_of :: "session \<Rightarrow> real" where
  "total_of s = (case private_data s of None \<Rightarrow> 0 | Some d \<Rightarrow> total_billed d)"

definition adjustment_of :: "session \<Rightarrow> real" where
  "adjustment_of s = (case private_data s of None \<Rightarrow> 0 | Some d \<Rightarrow> bill_adjustments d)"

text \<open>
  The charged seconds of increment mode in the words of the specification: \<open>inc\<close>
  seconds if \<open>\<Delta>t \<le> inc\<close>, else \<open>ceil(\<Delta>t / inc) * inc\<close>.
\<close>

definition spec_charged_seconds :: "int \<Rightarrow> real \<Rightarrow> real" where
  "spec_charged_seconds inc dt =
     (if dt \<le> real_of_int inc then real_of_int inc
      else real_of_int (\<lceil>dt / real_of_int inc\<rceil> * inc))"

subsection \<open>Concrete sessions and worlds\<close>

definition g0 :: globals where
  "g0 =
     \<lparr>percall_max_amt = 0, percall_action = Some ''hangup'', lowbal_amt = 5,
      lowbal_action = Some ''play ding'', nobal_amt = 0, nobal_action = Some ''hangup'',
      global_heartbeat = 0\<rparr>"

text \<open>
  A clock that gives the readings of a list in order and then repeats the last one; a
  world where every connection and command succeeds, the account \<open>a\<close> holds 500
  units and the clock gives the readings of the list.
\<close>

fun clock_of :: "int list \<Rightarrow> nat \<Rightarrow> int" where
  "clock_of [] n = 0"
| "clock_of [t] n = t"
| "clock_of (t # ts) 0 = t"
| "clock_of (t # ts) (Suc n) = clock_of ts n"

definition world_clock :: "int list \<Rightarrow> world" where
  "world_clock ts =
     \<lparr>mutex = 0, time_now = clock_of ts, ticks = 0, connect_ok = (\<lambda>n. True), connects = 0,
      command_ok = (\<lambda>n. True), commands = 0, app_status = (\<lambda>n. SWITCH_STATUS_SUCCESS),
      app_calls = 0, redis_db = [''rn_a'' \<mapsto> 500000000], trace = []\<rparr>"

definition world_at :: "int \<Rightarrow> world" where
  "world_at now = world_clock [now]"

text \<open>The same world with the redis server out of reach.\<close>

definition world_down :: "int \<Rightarrow> world" where
  "world_down now = (world_at now)\<lparr>connect_ok := (\<lambda>n. False)\<rparr>"

text \<open>
  A world with the clock readings of a list where the first connection to redis fails
  and every later one is established.
\<close>

definition world_down_once :: "int list \<Rightarrow> world" where
  "world_down_once ts = (world_clock ts)\<lparr>connect_ok := (\<lambda>n. 0 < n)\<rparr>"

text \<open>
  A session answered at second 100 that bills account \<open>a\<close> at 60 units a minute, with
  the given increment and billing data.
\<close>

definition session_with :: "int option \<Rightarrow> rednibble_data option \<Rightarrow> session" where
  "session_with inc d =
     \<lparr>var_rednibble_rate = Some 60, var_rednibble_increment = inc,
      var_rednibble_account = Some ''a'', var_nobal_amt = None, var_lowbal_amt = None,
      var_rednibble_total_billed = None, answered = Some 100000000, chan_state = CS_OTHER,
      private_data = d\<rparr>"

definition data_at :: "int \<Rightarrow> rednibble_data" where
  "data_at ts = zero_data\<lparr>lastts := ts\<rparr>"

text \<open>
  A session with a rate of 60 units a minute and no account, its billing paused at
  second 110.
\<close>

definition session_paused :: session where
  "session_paused =
     (session_with None (Some ((data_at 100000000)\<lparr>pausets := 110000000\<rparr>)))
       \<lparr>var_rednibble_account := None\<rparr>"

text \<open>A session with no billing variables at all.\<close>

definition session_plain :: session where
  "session_plain =
     \<lparr>var_rednibble_rate = None, var_rednibble_increment = None,
      var_rednibble_account = None, var_nobal_amt = None, var_lowbal_amt = None,
      var_rednibble_total_billed = None, answered = Some 100000000, chan_state = CS_OTHER,
      private_data = None\<rparr>"

section \<open>Properties\<close>

subsection \<open>What each piece leaves alone\<close>

lemma sdiv_nonneg: "0 \<le> a \<Longrightarrow> a sdiv 1000000 = a div (1000000::int)"
  by (simp add: signed_divide_int_def sgn_if)

lemmas world_defs = switch_log_printf_def switch_mutex_lock_def switch_mutex_unlock_def
  switch_micro_time_now_def

lemma get_balance_frame:
  assumes "get_balance acct w = (b, w')"
  shows "mutex w' = mutex w \<and> bill_calls (trace w') = bill_calls (trace w)
    \<and> debits (trace w') = debits (trace w) \<and> warnings (trace w') = warnings (trace w)
    \<and> ticks w' = ticks w \<and> time_now w' = time_now w"
  using assms
  by (auto simp: get_balance_def redis_factory_def credis_connect_def credis_get_def
      switch_log_printf_def Let_def split: if_splits option.splits prod.splits)

lemma exec_app_frame:
  assumes "exec_app a w = (st, w')"
  shows "mutex w' = mutex w \<and> bill_calls (trace w') = bill_calls (trace w)
    \<and> debits (trace w') = debits (trace w) \<and> warnings (trace w') = warnings (trace w)
    \<and> ticks w' = ticks w \<and> time_now w' = time_now w"
  using assms by (auto simp: exec_app_def split: option.splits)

lemma transfer_call_frame:
  "mutex (transfer_call s a w) = mutex w"
  "bill_calls (trace (transfer_call s a w)) = bill_calls (trace w)"
  "debits (trace (transfer_call s a w)) = debits (trace w)"
  "warnings (trace (transfer_call s a w)) = warnings (trace w)"
  by (auto simp: transfer_call_def split: option.splits)

lemma pause_session:
  assumes "rednibblebill_pause s w = (s', w')"
  shows "s' = s\<lparr>private_data := map_option
                  (\<lambda>d. if pausets d = 0 then d\<lparr>pausets := time_now w (ticks w)\<rparr> else d)
                  (private_data s)\<rparr>"
  using assms
  by (auto simp: rednibblebill_pause_def world_defs Let_def split: option.splits)

lemma pause_frame:
  assumes "rednibblebill_pause s w = (s', w')"
  shows "bill_calls (trace w') = bill_calls (trace w)
    \<and> debits (trace w') = debits (trace w) \<and> warnings (trace w') = warnings (trace w)
    \<and> mutex w' = (if private_data s = None then Suc (mutex w) else mutex w)"
  using assms
  by (auto simp: rednibblebill_pause_def world_defs Let_def split: option.splits)

lemma verify_result:
  assumes "do_billing_verify g nobal lowbal acct d s w = (s', w')"
  shows "\<exists>d'. s' = s\<lparr>private_data := Some d'\<rparr> \<and> lastts d' = lastts d
           \<and> total_billed d' = total_billed d \<and> bill_adjustments d' = bill_adjustments d"
    and "mutex w' = mutex w \<and> bill_calls (trace w') = bill_calls (trace w)
           \<and> debits (trace w') = debits (trace w) \<and> warnings (trace w') = warnings (trace w)"
proof -
  show "\<exists>d'. s' = s\<lparr>private_data := Some d'\<rparr> \<and> lastts d' = lastts d
           \<and> total_billed d' = total_billed d \<and> bill_adjustments d' = bill_adjustments d"
    using assms
    by (auto simp: do_billing_verify_def Let_def dest!: pause_session
        split: if_splits prod.splits)
  show "mutex w' = mutex w \<and> bill_calls (trace w') = bill_calls (trace w)
           \<and> debits (trace w') = debits (trace w) \<and> warnings (trace w') = warnings (trace w)"
    using assms
    by (auto simp: do_billing_verify_def Let_def world_defs transfer_call_frame
        dest!: pause_frame get_balance_frame exec_app_frame
        split: if_splits prod.splits)
qed

lemma bill_event_result:
  assumes "bill_event a acct w = Inr (st, w')"
  shows "mutex w' = mutex w \<and> bill_calls (trace w') = (a, acct) # bill_calls (trace w)
    \<and> ticks w' = ticks w \<and> time_now w' = time_now w
    \<and> warnings (trace w') = warnings (trace w)
    \<and> (st = SWITCH_STATUS_SUCCESS \<longleftrightarrow> store_ok w)"
  using assms
  by (auto simp: bill_event_def redis_factory_def credis_connect_def credis_decrby_def
      switch_log_printf_def Let_def store_ok_def split: if_splits option.splits prod.splits)

lemma debit_result:
  assumes "do_billing_debit a acct d s w = Inr (d', s', w')"
  shows "lastts d' = lastts d \<and> pausets d' = pausets d
    \<and> lowbal_action_executed d' = lowbal_action_executed d
    \<and> total_billed d' = (if store_ok w then total_billed d + a else total_billed d)
    \<and> bill_adjustments d' = (if store_ok w then 0 else bill_adjustments d)
    \<and> bill_calls (trace w') = (a, acct) # bill_calls (trace w)
    \<and> mutex w' = mutex w \<and> ticks w' = ticks w \<and> time_now w' = time_now w
    \<and> warnings (trace w') = warnings (trace w)
    \<and> private_data s' = private_data s \<and> chan_state s' = chan_state s
    \<and> var_rednibble_rate s' = var_rednibble_rate s"
  using assms
  by (auto simp: do_billing_debit_def store_ok_def switch_log_printf_def
      dest!: bill_event_result split: sum.splits prod.splits if_splits)

lemma charge_result:
  assumes "do_billing_charge ts rate inc acct d s w = Inr (d', s', w')"
    and "0 \<le> ts - lastts d"
  shows "\<exists>cu. charged inc (ts - lastts d) = Some cu
           \<and> lastts d' = lastts d + cu
           \<and> total_billed d' =
               (if store_ok w
                then total_billed d + ((rate / 1000000 / 60) * real_of_int cu - bill_adjustments d)
                else total_billed d)
           \<and> bill_adjustments d' = (if store_ok w then 0 else bill_adjustments d)
           \<and> bill_calls (trace w') =
               ((rate / 1000000 / 60) * real_of_int cu - bill_adjustments d, acct)
                 # bill_calls (trace w)"
  using assms
  by (auto simp: do_billing_charge_def charged_def dest!: debit_result
      split: option.splits if_splits)

lemma charge_skip:
  assumes "do_billing_charge ts rate inc acct d s w = r"
    and "ts - lastts d < 0"
  shows "r = Inr (d, s, if inc = None then switch_log_printf SWITCH_LOG_WARNING w else w)"
  using assms by (simp add: do_billing_charge_def)

lemma charge_frame:
  assumes "do_billing_charge ts rate inc acct d s w = Inr (d', s', w')"
  shows "pausets d' = pausets d \<and> lowbal_action_executed d' = lowbal_action_executed d
    \<and> mutex w' = mutex w \<and> private_data s' = private_data s \<and> chan_state s' = chan_state s
    \<and> ticks w' = ticks w \<and> time_now w' = time_now w
    \<and> var_rednibble_rate s' = var_rednibble_rate s"
  using assms
  by (auto simp: do_billing_charge_def switch_log_printf_def dest!: debit_result
      split: option.splits if_splits)

lemma charge_world_frame:
  "store_ok (charge_world s w) = store_ok w"
  "bill_calls (trace (charge_world s w)) = bill_calls (trace w)"
  "mutex (charge_world s w) = Suc (mutex w)"
  "debits (trace (charge_world s w)) = debits (trace w)"
  by (auto simp: charge_world_def world_defs store_ok_def Let_def split: option.splits)

lemma do_billing_active:
  assumes "var_rednibble_rate s = Some rate" and "var_rednibble_account s = Some acct"
    and "answered s = Some ans" and "1 \<le> ans" and "pausets (entry_data s ans) \<le> 0"
  shows "do_billing g s w =
           (case do_billing_charge (time_now w (ticks w)) rate (var_rednibble_increment s) acct
                   (entry_data s ans) s (charge_world s w) of
              Inl e \<Rightarrow> Inl e
            | Inr (d1, s1, w1) \<Rightarrow>
                (case do_billing_verify g (nobal_of g s) (lowbal_of g s) acct d1 s1 w1 of
                   (s2, w2) \<Rightarrow> Inr (s2, switch_mutex_unlock w2)))"
  using assms
  by (auto simp: do_billing_def entry_data_def nobal_of_def lowbal_of_def charge_world_def
      switch_micro_time_now_def Let_def
      split: option.splits sum.splits prod.splits)

lemma do_billing_active_result:
  assumes "var_rednibble_rate s = Some rate" and "var_rednibble_account s = Some acct"
    and "answered s = Some ans" and "1 \<le> ans" and "pausets (entry_data s ans) \<le> 0"
    and "0 \<le> time_now w (ticks w) - lastts (entry_data s ans)"
    and "do_billing g s w = Inr (s', w')"
  shows "\<exists>d' cu. private_data s' = Some d'
           \<and> charged (var_rednibble_increment s)
                (time_now w (ticks w) - lastts (entry_data s ans)) = Some cu
           \<and> lastts d' = lastts (entry_data s ans) + cu
           \<and> total_billed d' =
               (if store_ok w
                then total_billed (entry_data s ans)
                     + ((rate / 1000000 / 60) * real_of_int cu - bill_adjustments (entry_data s ans))
                else total_billed (entry_data s ans))
           \<and> bill_adjustments d' = (if store_ok w then 0 else bill_adjustments (entry_data s ans))
           \<and> bill_calls (trace w') =
               ((rate / 1000000 / 60) * real_of_int cu - bill_adjustments (entry_data s ans), acct)
                 # bill_calls (trace w)
           \<and> mutex w' = mutex w
           \<and> var_rednibble_rate s' = var_rednibble_rate s"
proof -
  from assms(7) do_billing_active [OF assms(1-5), of g w]
  obtain d1 s1 w1 w2 where
    c: "do_billing_charge (time_now w (ticks w)) rate (var_rednibble_increment s) acct
               (entry_data s ans) s (charge_world s w) = Inr (d1, s1, w1)"
    and v: "do_billing_verify g (nobal_of g s) (lowbal_of g s) acct d1 s1 w1 = (s', w2)"
    and fin: "w' = switch_mutex_unlock w2"
    by (auto split: sum.splits prod.splits)
  from charge_result [OF c assms(6)] obtain cu where
    cu: "charged (var_rednibble_increment s)
                (time_now w (ticks w) - lastts (entry_data s ans)) = Some cu"
    and r: "lastts d1 = lastts (entry_data s ans) + cu"
      "total_billed d1 =
               (if store_ok (charge_world s w)
                then total_billed (entry_data s ans)
                     + ((rate / 1000000 / 60) * real_of_int cu - bill_adjustments (entry_data s ans))
                else total_billed (entry_data s ans))"
      "bill_adjustments d1 =
         (if store_ok (charge_world s w) then 0 else bill_adjustments (entry_data s ans))"
      "bill_calls (trace w1) =
               ((rate / 1000000 / 60) * real_of_int cu - bill_adjustments (entry_data s ans), acct)
                 # bill_calls (trace (charge_world s w))"
    by blast
  from charge_frame [OF c] have m1: "mutex w1 = mutex (charge_world s w)"
    and r1: "var_rednibble_rate s1 = var_rednibble_rate s" by simp_all
  from verify_result(1) [OF v] obtain d' where
    d': "s' = s1\<lparr>private_data := Some d'\<rparr>" "lastts d' = lastts d1"
      "total_billed d' = total_billed d1" "bill_adjustments d' = bill_adjustments d1"
    by blast
  from verify_result(2) [OF v] have m2: "mutex w2 = mutex w1"
    and b2: "bill_calls (trace w2) = bill_calls (trace w1)" by simp_all
  show ?thesis
    using cu r d' m1 r1 m2 b2 fin by (simp add: charge_world_frame switch_mutex_unlock_def)
qed

lemma bill_event_defined:
  assumes "connect_ok w (connects w) \<longrightarrow> convertible a"
  shows "\<exists>st w'. bill_event a acct w = Inr (st, w')"
  using assms
  by (auto simp: bill_event_def redis_factory_def credis_connect_def convertible_def Let_def
      split: prod.splits option.splits)

lemma debit_defined:
  assumes "connect_ok w (connects w) \<longrightarrow> convertible a"
  shows "\<exists>d' s' w'. do_billing_debit a acct d s w = Inr (d', s', w')"
proof -
  have "connect_ok (switch_log_printf SWITCH_LOG_DEBUG w)
          (connects (switch_log_printf SWITCH_LOG_DEBUG w)) \<longrightarrow> convertible a"
    using assms by (simp add: switch_log_printf_def)
  from bill_event_defined [OF this, of acct] show ?thesis
    by (auto simp: do_billing_debit_def)
qed

lemma charge_defined:
  assumes "charged inc (ts - lastts d) = Some cu"
    and "connect_ok w (connects w) \<longrightarrow> convertible ((rate / 1000000 / 60) * real_of_int cu - bill_adjustments d)"
  shows "\<exists>d' s' w'. do_billing_charge ts rate inc acct d s w = Inr (d', s', w')"
  using assms debit_defined [OF assms(2)]
  by (auto simp: do_billing_charge_def charged_def split: option.splits)

lemma charged_formula:
  assumes "0 \<le> elapsed" and "inc \<noteq> Some 0"
  shows "charged inc elapsed =
           Some (case inc of
                   Some i \<Rightarrow>
                     if elapsed div 1000000 \<le> i then i * 1000000
                     else \<lceil>real_of_int elapsed / (real_of_int i * 1000000)\<rceil> * i * 1000000
                 | None \<Rightarrow> elapsed)"
  using assms by (auto simp: charged_def chargedunits_def sdiv_nonneg split: option.splits)

lemma charge_world_connect:
  "connect_ok (charge_world s w) (connects (charge_world s w)) = connect_ok w (connects w)"
  by (auto simp: charge_world_def world_defs Let_def split: option.splits)


lemma ceiling_quotient_nonneg:
  assumes "0 \<le> e" and "i \<noteq> 0"
  shows "0 \<le> \<lceil>real_of_int e / (real_of_int i * 1000000)\<rceil> * i"
proof (cases "0 < i")
  case True
  then have "0 \<le> real_of_int e / (real_of_int i * 1000000)" using assms by simp
  then have "0 \<le> \<lceil>real_of_int e / (real_of_int i * 1000000)\<rceil>" by linarith
  then show ?thesis using True by simp
next
  case False
  then have neg: "i < 0" using assms by simp
  then have "real_of_int e / (real_of_int i * 1000000) \<le> 0"
    using assms by (simp add: divide_nonneg_neg)
  then have "\<lceil>real_of_int e / (real_of_int i * 1000000)\<rceil> \<le> 0" by (simp add: ceiling_le_zero)
  then show ?thesis using neg by (simp add: mult_nonpos_nonpos)
qed

lemma charged_nonneg:
  assumes "0 \<le> elapsed" and "charged inc elapsed = Some cu"
  shows "0 \<le> cu"
proof (cases inc)
  case None
  then show ?thesis using assms by (simp add: charged_def)
next
  case (Some i)
  show ?thesis
  proof (cases "elapsed sdiv 1000000 \<le> i")
    case True
    have "0 \<le> elapsed div 1000000" using assms(1) by (simp add: pos_imp_zdiv_nonneg_iff)
    then have "0 \<le> i" using True assms(1) by (simp add: sdiv_nonneg)
    then show ?thesis using assms(2) Some True by (simp add: charged_def chargedunits_def)
  next
    case False
    then have "i \<noteq> 0" and cu: "cu = \<lceil>real_of_int elapsed / (real_of_int i * 1000000)\<rceil> * i * 1000000"
      using assms(2) Some by (auto simp: charged_def chargedunits_def split: if_splits)
    from ceiling_quotient_nonneg [OF assms(1) this(1)] show ?thesis
      unfolding cu by simp
  qed
qed

subsection \<open>Billing, step by step\<close>

lemma do_billing_inactive:
  assumes "\<not> billing_active s"
  shows "\<exists>w'. do_billing g s w = Inr (s, w')
           \<and> bill_calls (trace w') = bill_calls (trace w)
           \<and> debits (trace w') = debits (trace w) \<and> mutex w' = mutex w"
  using assms
  by (auto simp: do_billing_def billing_active_def entry_data_def world_defs Let_def
      transfer_call_frame zero_data_def
      dest!: get_balance_frame
      split: option.splits prod.splits)

lemma billing_activeD:
  assumes "billing_active s"
  obtains rate acct ans where "var_rednibble_rate s = Some rate"
    and "var_rednibble_account s = Some acct" and "answered s = Some ans" and "1 \<le> ans"
    and "pausets (entry_data s ans) \<le> 0"
  using assms by (auto simp: billing_active_def split: option.splits)

lemma do_billing_active_skip:
  assumes "var_rednibble_rate s = Some rate" and "var_rednibble_account s = Some acct"
    and "answered s = Some ans" and "1 \<le> ans" and "pausets (entry_data s ans) \<le> 0"
    and "time_now w (ticks w) - lastts (entry_data s ans) < 0"
  shows "\<exists>s' w' d'. do_billing g s w = Inr (s', w') \<and> private_data s' = Some d'
           \<and> lastts d' = lastts (entry_data s ans)
           \<and> total_billed d' = total_billed (entry_data s ans)
           \<and> bill_adjustments d' = bill_adjustments (entry_data s ans)
           \<and> bill_calls (trace w') = bill_calls (trace w)
           \<and> debits (trace w') = debits (trace w)
           \<and> warnings (trace w') =
               (if var_rednibble_increment s = None then Suc (warnings (trace w))
                else warnings (trace w))
           \<and> mutex w' = mutex w
           \<and> var_rednibble_rate s' = var_rednibble_rate s"
proof -
  let ?wc = "if var_rednibble_increment s = None
             then switch_log_printf SWITCH_LOG_WARNING (charge_world s w) else charge_world s w"
  have c: "do_billing_charge (time_now w (ticks w)) rate (var_rednibble_increment s) acct
             (entry_data s ans) s (charge_world s w) = Inr (entry_data s ans, s, ?wc)"
    using charge_skip [OF refl assms(6)] by simp
  obtain s' w2 where
    v: "do_billing_verify g (nobal_of g s) (lowbal_of g s) acct (entry_data s ans) s ?wc = (s', w2)"
    by (cases "do_billing_verify g (nobal_of g s) (lowbal_of g s) acct (entry_data s ans) s ?wc")
  have res: "do_billing g s w = Inr (s', switch_mutex_unlock w2)"
    using do_billing_active [OF assms(1-5), of g w] c v by simp
  from verify_result(1) [OF v] obtain d' where
    d': "s' = s\<lparr>private_data := Some d'\<rparr>" "lastts d' = lastts (entry_data s ans)"
      "total_billed d' = total_billed (entry_data s ans)"
      "bill_adjustments d' = bill_adjustments (entry_data s ans)"
    by blast
  have wc: "bill_calls (trace ?wc) = bill_calls (trace w)" "debits (trace ?wc) = debits (trace w)"
    "mutex ?wc = Suc (mutex w)"
    "warnings (trace ?wc) = (if var_rednibble_increment s = None then Suc (warnings (trace w))
                else warnings (trace w))"
    by (auto simp: charge_world_def world_defs Let_def split: option.splits)
  show ?thesis
    using res d' verify_result(2) [OF v] wc
    by (intro exI [of _ s'] exI [of _ "switch_mutex_unlock w2"] exI [of _ d'])
      (simp add: switch_mutex_unlock_def)
qed

lemma do_billing_lastts_mono:
  assumes "do_billing g s w = Inr (s', w')" and "private_data s = Some d"
  shows "\<exists>d'. private_data s' = Some d' \<and> lastts d \<le> lastts d'"
proof (cases "billing_active s")
  case False
  from do_billing_inactive [OF False, of g w] assms show ?thesis by auto
next
  case True
  then obtain rate acct ans where a: "var_rednibble_rate s = Some rate"
    "var_rednibble_account s = Some acct" "answered s = Some ans" "1 \<le> ans"
    "pausets (entry_data s ans) \<le> 0"
    by (rule billing_activeD)
  have e: "entry_data s ans = d" using assms(2) by (simp add: entry_data_def)
  show ?thesis
  proof (cases "0 \<le> time_now w (ticks w) - lastts (entry_data s ans)")
    case True
    from do_billing_active_result [OF a True assms(1)] obtain d' cu where
      "private_data s' = Some d'"
      "charged (var_rednibble_increment s) (time_now w (ticks w) - lastts (entry_data s ans)) = Some cu"
      "lastts d' = lastts (entry_data s ans) + cu"
      by blast
    with charged_nonneg [OF True this(2)] e show ?thesis by simp
  next
    case False
    then have "time_now w (ticks w) - lastts (entry_data s ans) < 0" by simp
    from do_billing_active_skip [OF a this, of g] assms(1) e show ?thesis by auto
  qed
qed

lemma do_billing_billed:
  assumes rate: "var_rednibble_rate s = Some rate"
    and acct: "var_rednibble_account s = Some acct"
    and ans: "answered s = Some ans" "1 \<le> ans"
    and d: "d = entry_data s ans" "pausets d \<le> 0"
    and elapsed: "elapsed = time_now w (ticks w) - lastts d" "0 \<le> elapsed"
    and inc: "var_rednibble_increment s \<noteq> Some 0"
    and cu: "cu = (case var_rednibble_increment s of
                    Some i \<Rightarrow>
                      if elapsed div 1000000 \<le> i then i * 1000000
                      else \<lceil>real_of_int elapsed / (real_of_int i * 1000000)\<rceil> * i * 1000000
                  | None \<Rightarrow> elapsed)"
    and amount: "amount = rate / 60 * (real_of_int cu / 1000000) - bill_adjustments d"
    and conv: "connect_ok w (connects w) \<longrightarrow> convertible amount"
  shows "\<exists>s' w' d'. do_billing g s w = Inr (s', w') \<and> private_data s' = Some d'
           \<and> lastts d' = lastts d + cu
           \<and> total_billed d' = (if store_ok w then total_billed d + amount else total_billed d)
           \<and> bill_adjustments d' = (if store_ok w then 0 else bill_adjustments d)
           \<and> bill_calls (trace w') = (amount, acct) # bill_calls (trace w)
           \<and> mutex w' = mutex w"
proof -
  have ch: "charged (var_rednibble_increment s) (time_now w (ticks w) - lastts (entry_data s ans))
              = Some cu"
    using charged_formula [OF elapsed(2) inc] cu elapsed(1) d(1) by simp
  have am: "rate / 1000000 / 60 * real_of_int cu - bill_adjustments (entry_data s ans) = amount"
    using amount d(1) by simp
  have "connect_ok (charge_world s w) (connects (charge_world s w))
          \<longrightarrow> convertible (rate / 1000000 / 60 * real_of_int cu - bill_adjustments (entry_data s ans))"
    using conv am by (simp add: charge_world_connect)
  from charge_defined [OF ch this] obtain d1 s1 w1 where
    c: "do_billing_charge (time_now w (ticks w)) rate (var_rednibble_increment s) acct
               (entry_data s ans) s (charge_world s w) = Inr (d1, s1, w1)"
    by blast
  obtain s' w2 where
    v: "do_billing_verify g (nobal_of g s) (lowbal_of g s) acct d1 s1 w1 = (s', w2)"
    by (cases "do_billing_verify g (nobal_of g s) (lowbal_of g s) acct d1 s1 w1")
  have np: "pausets (entry_data s ans) \<le> 0" using d by simp
  have res: "do_billing g s w = Inr (s', switch_mutex_unlock w2)"
    using do_billing_active [OF rate acct ans np, of g w] c v by simp
  have el: "0 \<le> time_now w (ticks w) - lastts (entry_data s ans)"
    using elapsed d(1) by simp
  from do_billing_active_result [OF rate acct ans np el res] ch am d(1)
  have "\<exists>d'. private_data s' = Some d' \<and> lastts d' = lastts d + cu
          \<and> total_billed d' = (if store_ok w then total_billed d + amount else total_billed d)
          \<and> bill_adjustments d' = (if store_ok w then 0 else bill_adjustments d)
          \<and> bill_calls (trace (switch_mutex_unlock w2)) = (amount, acct) # bill_calls (trace w)
          \<and> mutex (switch_mutex_unlock w2) = mutex w"
    by auto
  with res show ?thesis
    by (intro exI [of _ s'] exI [of _ "switch_mutex_unlock w2"]) simp
qed

lemma app_lastts:
  assumes "rednibblebill_app_function g c s w = Inr (s', w')" and "private_data s = Some d"
  shows "\<exists>d'. private_data s' = Some d'
           \<and> (if c = Cmd_reset then lastts d' = time_now w (ticks w) else lastts d \<le> lastts d')"
proof (cases c)
  case Cmd_flush
  with assms do_billing_lastts_mono [of g s w s' w' d] show ?thesis
    by (simp add: rednibblebill_app_function_def)
next
  case (Cmd_adjust a)
  with assms show ?thesis
    by (auto simp: rednibblebill_app_function_def split: sum.splits)
next
  case Cmd_pause
  with assms show ?thesis
    by (auto simp: rednibblebill_app_function_def dest!: pause_session)
next
  case Cmd_resume
  with assms show ?thesis
    by (auto simp: rednibblebill_app_function_def rednibblebill_resume_def world_defs
        split: option.splits if_splits)
next
  case Cmd_check
  with assms show ?thesis
    by (auto simp: rednibblebill_app_function_def split: prod.splits)
next
  case Cmd_reset
  with assms show ?thesis
    by (auto simp: rednibblebill_app_function_def rednibblebill_reset_def world_defs)
next
  case (Cmd_heartbeat n)
  with assms show ?thesis
    by (auto simp: rednibblebill_app_function_def)
qed

lemma run_lastts_mono:
  assumes "run_commands g cs s w = Inr (s', w')" and "Cmd_reset \<notin> set cs"
    and "private_data s = Some d"
  shows "\<exists>d'. private_data s' = Some d' \<and> lastts d \<le> lastts d'"
  using assms
proof (induction cs arbitrary: s w d)
  case Nil
  then show ?case by simp
next
  case (Cons c cs)
  from Cons.prems(1) obtain s1 w1 where
    step: "rednibblebill_app_function g c s w = Inr (s1, w1)"
    and rest: "run_commands g cs s1 w1 = Inr (s', w')"
    by (auto split: sum.splits)
  from app_lastts [OF step Cons.prems(3)] Cons.prems(2) obtain d1 where
    d1: "private_data s1 = Some d1" "lastts d \<le> lastts d1"
    by auto
  from Cons.IH [OF rest _ d1(1)] Cons.prems(2) obtain d' where
    "private_data s' = Some d'" "lastts d1 \<le> lastts d'"
    by auto
  with d1 show ?case by auto
qed

lemma flush_total:
  assumes "do_billing g s w = Inr (s', w')"
    and "\<forall>r. var_rednibble_rate s = Some r \<longrightarrow> 0 \<le> r" and "adjustment_of s \<le> 0"
  shows "total_of s \<le> total_of s' \<and> adjustment_of s' \<le> 0
           \<and> var_rednibble_rate s' = var_rednibble_rate s"
proof (cases "billing_active s")
  case False
  from do_billing_inactive [OF False, of g w] assms show ?thesis by auto
next
  case True
  then obtain rate acct ans where a: "var_rednibble_rate s = Some rate"
    "var_rednibble_account s = Some acct" "answered s = Some ans" "1 \<le> ans"
    "pausets (entry_data s ans) \<le> 0"
    by (rule billing_activeD)
  have e: "total_billed (entry_data s ans) = total_of s"
    "bill_adjustments (entry_data s ans) = adjustment_of s"
    by (auto simp: entry_data_def total_of_def adjustment_of_def zero_data_def
        split: option.splits)
  have rate: "0 \<le> rate" using assms(2) a(1) by simp
  show ?thesis
  proof (cases "0 \<le> time_now w (ticks w) - lastts (entry_data s ans)")
    case True
    from do_billing_active_result [OF a True assms(1)] obtain d' cu where
      r: "private_data s' = Some d'"
      "charged (var_rednibble_increment s) (time_now w (ticks w) - lastts (entry_data s ans)) = Some cu"
      "total_billed d' =
               (if store_ok w
                then total_billed (entry_data s ans)
                     + ((rate / 1000000 / 60) * real_of_int cu - bill_adjustments (entry_data s ans))
                else total_billed (entry_data s ans))"
      "bill_adjustments d' = (if store_ok w then 0 else bill_adjustments (entry_data s ans))"
      "var_rednibble_rate s' = var_rednibble_rate s"
      by blast
    have "0 \<le> cu" by (rule charged_nonneg [OF True r(2)])
    then have "0 \<le> (rate / 1000000 / 60) * real_of_int cu" using rate by simp
    then show ?thesis
      using r e assms(3) by (simp add: total_of_def adjustment_of_def)
  next
    case False
    then have "time_now w (ticks w) - lastts (entry_data s ans) < 0" by simp
    from do_billing_active_skip [OF a this, of g] assms(1) e assms(3) show ?thesis
      by (auto simp: total_of_def adjustment_of_def)
  qed
qed

lemma app_total_other:
  assumes "rednibblebill_app_function g c s w = Inr (s', w')" and "c \<noteq> Cmd_flush"
  shows "total_of s' = total_of s \<and> var_rednibble_rate s' = var_rednibble_rate s
           \<and> (c \<noteq> Cmd_resume \<longrightarrow> adjustment_of s' = adjustment_of s)"
proof (cases c)
  case Cmd_flush
  with assms show ?thesis by simp
next
  case (Cmd_adjust a)
  with assms show ?thesis
    by (auto simp: rednibblebill_app_function_def split: sum.splits)
next
  case Cmd_pause
  with assms show ?thesis
    by (auto simp: rednibblebill_app_function_def total_of_def adjustment_of_def
        dest!: pause_session split: option.splits)
next
  case Cmd_resume
  with assms show ?thesis
    by (auto simp: rednibblebill_app_function_def rednibblebill_resume_def world_defs
        total_of_def split: option.splits if_splits)
next
  case Cmd_check
  with assms show ?thesis
    by (auto simp: rednibblebill_app_function_def split: prod.splits)
next
  case Cmd_reset
  with assms show ?thesis
    by (auto simp: rednibblebill_app_function_def rednibblebill_reset_def world_defs
        total_of_def adjustment_of_def split: option.splits)
next
  case (Cmd_heartbeat n)
  with assms show ?thesis
    by (auto simp: rednibblebill_app_function_def)
qed

lemma run_total_unchanged:
  assumes "run_commands g cs s w = Inr (s', w')" and "Cmd_flush \<notin> set cs"
  shows "total_of s' = total_of s"
  using assms
proof (induction cs arbitrary: s w)
  case Nil
  then show ?case by simp
next
  case (Cons c cs)
  from Cons.prems(1) obtain s1 w1 where
    step: "rednibblebill_app_function g c s w = Inr (s1, w1)"
    and rest: "run_commands g cs s1 w1 = Inr (s', w')"
    by (auto split: sum.splits)
  from Cons.prems(2) have "c \<noteq> Cmd_flush" "Cmd_flush \<notin> set cs" by auto
  from app_total_other [OF step this(1)] Cons.IH [OF rest this(2)] show ?case by simp
qed

lemma run_total_mono:
  assumes "run_commands g cs s w = Inr (s', w')" and "Cmd_resume \<notin> set cs"
    and "\<forall>r. var_rednibble_rate s = Some r \<longrightarrow> 0 \<le> r" and "adjustment_of s \<le> 0"
  shows "total_of s \<le> total_of s'"
  using assms
proof (induction cs arbitrary: s w)
  case Nil
  then show ?case by simp
next
  case (Cons c cs)
  from Cons.prems(1) obtain s1 w1 where
    step: "rednibblebill_app_function g c s w = Inr (s1, w1)"
    and rest: "run_commands g cs s1 w1 = Inr (s', w')"
    by (auto split: sum.splits)
  from Cons.prems(2) have nr: "c \<noteq> Cmd_resume" "Cmd_resume \<notin> set cs" by auto
  have inv: "total_of s \<le> total_of s1 \<and> adjustment_of s1 \<le> 0
           \<and> var_rednibble_rate s1 = var_rednibble_rate s"
  proof (cases "c = Cmd_flush")
    case True
    with step have "do_billing g s w = Inr (s1, w1)"
      by (simp add: rednibblebill_app_function_def)
    from flush_total [OF this Cons.prems(3,4)] show ?thesis .
  next
    case False
    from app_total_other [OF step False] nr(1) Cons.prems(4) show ?thesis by simp
  qed
  then have "\<forall>r. var_rednibble_rate s1 = Some r \<longrightarrow> 0 \<le> r" "adjustment_of s1 \<le> 0"
    using Cons.prems(3) by simp_all
  from Cons.IH [OF rest nr(2) this] inv show ?case by simp
qed

lemma get_balance_transfers:
  assumes "get_balance acct w = (b, w')"
  shows "transfers (trace w') = transfers (trace w)"
  using assms
  by (auto simp: get_balance_def redis_factory_def credis_connect_def credis_get_def
      switch_log_printf_def Let_def split: if_splits option.splits prod.splits)

lemma exec_app_transfers:
  assumes "exec_app a w = (st, w')"
  shows "transfers (trace w') = transfers (trace w)"
  using assms by (auto simp: exec_app_def split: option.splits)

lemma bill_event_transfers:
  assumes "bill_event a acct w = Inr (st, w')"
  shows "transfers (trace w') = transfers (trace w)"
  using assms
  by (auto simp: bill_event_def redis_factory_def credis_connect_def credis_decrby_def
      switch_log_printf_def Let_def split: if_splits option.splits prod.splits)

lemma charge_transfers:
  assumes "do_billing_charge ts rate inc acct d s w = Inr (d', s', w')"
  shows "transfers (trace w') = transfers (trace w)"
  using assms
  by (auto simp: do_billing_charge_def do_billing_debit_def switch_log_printf_def
      dest!: bill_event_transfers split: option.splits if_splits sum.splits prod.splits)

lemma verify_nobal:
  assumes "fst (get_balance acct w) \<le> nobal"
    and "chan_state s \<noteq> CS_REPORTING" and "chan_state s \<noteq> CS_HANGUP"
    and "nobal_action g = Some dest" and "time_now w (ticks w) \<noteq> 0"
  shows "\<exists>s' w' dp. do_billing_verify g nobal lowbal acct d s w = (s', w')
           \<and> private_data s' = Some dp \<and> pausets dp \<noteq> 0
           \<and> pausets dp = (if pausets d = 0 then time_now w (ticks w) else pausets d)
           \<and> transfers (trace w') = (dest, Some dp) # transfers (trace w)"
proof -
  obtain b wb where gb: "get_balance acct w = (b, wb)" by (cases "get_balance acct w")
  have f: "ticks wb = ticks w" "time_now wb = time_now w"
    "transfers (trace wb) = transfers (trace w)"
    using get_balance_frame [OF gb] get_balance_transfers [OF gb] by simp_all
  have b: "b \<le> nobal" using assms(1) gb by simp
  show ?thesis
  proof (cases "lowbal_action_executed d = 0 \<and> b \<le> lowbal")
    case False
    then show ?thesis
      using gb b f assms(2-5)
      by (auto simp: do_billing_verify_def rednibblebill_pause_def transfer_call_def
          world_defs Let_def)
  next
    case True
    obtain st we where ea: "exec_app (lowbal_action g) (switch_log_printf SWITCH_LOG_DEBUG wb) = (st, we)"
      by (cases "exec_app (lowbal_action g) (switch_log_printf SWITCH_LOG_DEBUG wb)")
    have fe: "ticks we = ticks w" "time_now we = time_now w"
      "transfers (trace we) = transfers (trace w)"
      using exec_app_frame [OF ea] exec_app_transfers [OF ea] f
      by (simp_all add: switch_log_printf_def)
    show ?thesis
      using gb b True ea fe assms(2-5)
      by (auto simp: do_billing_verify_def rednibblebill_pause_def transfer_call_def
          world_defs Let_def)
  qed
qed

text \<open>The definitions that evaluate a run on a concrete input.\<close>

lemmas run_defs = rednibblebill_app_function_def rednibblebill_reset_def
  rednibblebill_resume_def rednibblebill_pause_def rednibblebill_check_def
  rednibblebill_adjust_def do_billing_def do_billing_charge_def do_billing_debit_def
  do_billing_verify_def bill_event_def get_balance_def redis_factory_def credis_connect_def
  credis_decrby_def credis_get_def exec_app_def transfer_call_def chargedunits_def
  int_of_double_def world_defs Let_def redis_key_def

lemmas input_defs = session_with_def world_at_def world_clock_def data_at_def zero_data_def
  g0_def

subsection \<open>The charge\<close>

text \<open>
  C1 (as amended). \<^verbatim>\<open>do_billing\<close> on an answered session that is not paused, with
  elapsed time \<open>\<Delta>t = now - lastts \<ge> 0\<close> (in microseconds), returns, and:
  in increment mode with an increment \<open>inc \<noteq> 0\<close> the charged units are \<open>inc\<close> seconds
  when the whole seconds of \<open>\<Delta>t\<close> (the fraction cut off) are at most \<open>inc\<close>, and otherwise
  \<open>ceil(\<Delta>t / inc) * inc\<close> seconds with \<open>\<Delta>t\<close> taken to the microsecond, and \<open>lastts\<close>
  advances by exactly the charged units; in continuous mode the charged units are
  \<open>\<Delta>t\<close> and \<open>lastts\<close> becomes \<open>now\<close>; in both modes the amount passed to \<^verbatim>\<open>bill_event\<close>
  is the rate per minute / 60 times the charged seconds, minus the pending adjustment.
  (The amount has to be convertible for the debit to be defined once the connection
  is established.)
\<close>

theorem do_billing_charged_units:
  assumes rate: "var_rednibble_rate s = Some rate"
    and acct: "var_rednibble_account s = Some acct"
    and ans: "answered s = Some ans" "1 \<le> ans"
    and d: "d = entry_data s ans" "pausets d \<le> 0"
    and elapsed: "elapsed = time_now w (ticks w) - lastts d" "0 \<le> elapsed"
    and inc: "var_rednibble_increment s \<noteq> Some 0"
    and cu: "cu = (case var_rednibble_increment s of
                    Some i \<Rightarrow>
                      if elapsed div 1000000 \<le> i then i * 1000000
                      else \<lceil>real_of_int elapsed / (real_of_int i * 1000000)\<rceil> * i * 1000000
                  | None \<Rightarrow> elapsed)"
    and amount: "amount = rate / 60 * (real_of_int cu / 1000000) - bill_adjustments d"
    and conv: "connect_ok w (connects w) \<longrightarrow> convertible amount"
  shows "\<exists>s' w' d'. do_billing g s w = Inr (s', w') \<and> private_data s' = Some d'
           \<and> lastts d' = lastts d + cu
           \<and> (var_rednibble_increment s = None \<longrightarrow> lastts d' = time_now w (ticks w))
           \<and> bill_calls (trace w') = (amount, acct) # bill_calls (trace w)"
proof -
  from do_billing_billed [OF assms, of g] obtain s' w' d' where
    r: "do_billing g s w = Inr (s', w')" "private_data s' = Some d'"
      "lastts d' = lastts d + cu"
      "bill_calls (trace w') = (amount, acct) # bill_calls (trace w)"
    by blast
  have "lastts d' = time_now w (ticks w)" if "var_rednibble_increment s = None"
    using that r(3) cu elapsed(1) by simp
  with r show ?thesis
    by (intro exI [of _ s'] exI [of _ w'] exI [of _ d']) simp
qed

theorem do_billing_charged_units_witness:
  "\<exists>s' w' d'.
      do_billing g0 (session_with (Some 60) (Some (data_at 100000000))) (world_at 160500000)
        = Inr (s', w')
      \<and> private_data s' = Some d' \<and> lastts d' = 160000000
      \<and> bill_calls (trace w') = [(60, ''a'')]"
  using do_billing_charged_units [where s = "session_with (Some 60) (Some (data_at 100000000))"
      and w = "world_at 160500000" and rate = 60 and acct = "''a''" and ans = 100000000
      and d = "data_at 100000000" and elapsed = 60500000 and cu = 60000000 and amount = 60
      and g = g0]
  by (simp add: session_with_def world_at_def world_clock_def data_at_def zero_data_def
      entry_data_def convertible_def int_of_double_def)

text \<open>
  The rule as the specification states it compares \<open>\<Delta>t\<close> itself with the increment. With an increment of
  60 seconds and 60.5 seconds elapsed the specification's rule charges 120 seconds; the
  module compares the whole seconds, 60, and charges 60 seconds. If \<open>\<Delta>t\<close> is read in
  whole seconds throughout, the rule charges 120 seconds after 120.5 seconds, where the
  module charges 180.
\<close>

theorem do_billing_charged_units_counterexample:
  "map_option lastts (result_data (do_billing g0
       (session_with (Some 60) (Some (data_at 100000000))) (world_at 160500000)))
     = Some (100000000 + 60 * 1000000)
   \<and> spec_charged_seconds 60 (60500000 / 1000000) = 120
   \<and> chargedunits 120500000 60 = Some (180 * 1000000)
   \<and> spec_charged_seconds 60 (real_of_int (120500000 div 1000000)) = 120"
  by (simp add: run_defs input_defs result_data_def spec_charged_seconds_def)

subsection \<open>A debit that fails\<close>

text \<open>
  C2 (as amended). On an answered session that is not paused, with elapsed time
  \<open>\<ge> 0\<close> and a charge that is defined (an increment that is not 0, an amount that is
  convertible once the connection is established), \<^verbatim>\<open>do_billing\<close> calls \<^verbatim>\<open>bill_event\<close>
  once, and whether the debit succeeds or not the timestamp keeps the value advanced
  before the debit. After any later sequence of commands without a \<open>reset\<close> in it the
  timestamp is still at or above that value, so no later \<^verbatim>\<open>do_billing\<close> bills the window
  again. The total grows by the amount and the pending adjustment is reset when the
  debit succeeds, and only then: after a failed debit both are what they were.
\<close>

theorem do_billing_failed_debit:
  assumes rate: "var_rednibble_rate s = Some rate"
    and acct: "var_rednibble_account s = Some acct"
    and ans: "answered s = Some ans" "1 \<le> ans"
    and d: "d = entry_data s ans" "pausets d \<le> 0"
    and elapsed: "elapsed = time_now w (ticks w) - lastts d" "0 \<le> elapsed"
    and inc: "var_rednibble_increment s \<noteq> Some 0"
    and cu: "cu = (case var_rednibble_increment s of
                    Some i \<Rightarrow>
                      if elapsed div 1000000 \<le> i then i * 1000000
                      else \<lceil>real_of_int elapsed / (real_of_int i * 1000000)\<rceil> * i * 1000000
                  | None \<Rightarrow> elapsed)"
    and amount: "amount = rate / 60 * (real_of_int cu / 1000000) - bill_adjustments d"
    and conv: "connect_ok w (connects w) \<longrightarrow> convertible amount"
  shows "\<exists>s' w' d'. do_billing g s w = Inr (s', w') \<and> private_data s' = Some d'
           \<and> lastts d' = lastts d + cu
           \<and> bill_calls (trace w') = (amount, acct) # bill_calls (trace w)
           \<and> (store_ok w \<longrightarrow>
                 total_billed d' = total_billed d + amount \<and> bill_adjustments d' = 0)
           \<and> (\<not> store_ok w \<longrightarrow>
                 total_billed d' = total_billed d \<and> bill_adjustments d' = bill_adjustments d)
           \<and> (\<forall>cs s'' w''. Cmd_reset \<notin> set cs
                   \<and> run_commands g cs s' w' = Inr (s'', w'') \<longrightarrow>
                 (\<exists>d''. private_data s'' = Some d'' \<and> lastts d + cu \<le> lastts d''))"
proof -
  from do_billing_billed [OF assms, of g] obtain s' w' d' where
    r: "do_billing g s w = Inr (s', w')" "private_data s' = Some d'"
      "lastts d' = lastts d + cu"
      "total_billed d' = (if store_ok w then total_billed d + amount else total_billed d)"
      "bill_adjustments d' = (if store_ok w then 0 else bill_adjustments d)"
      "bill_calls (trace w') = (amount, acct) # bill_calls (trace w)"
    by blast
  have step: "\<exists>d''. private_data s'' = Some d'' \<and> lastts d + cu \<le> lastts d''"
    if "Cmd_reset \<notin> set cs" and "run_commands g cs s' w' = Inr (s'', w'')" for cs s'' w''
    using run_lastts_mono [OF that(2) that(1) r(2)] r(3) by simp
  then have later: "\<forall>cs s'' w''. Cmd_reset \<notin> set cs
                   \<and> run_commands g cs s' w' = Inr (s'', w'') \<longrightarrow>
                 (\<exists>d''. private_data s'' = Some d'' \<and> lastts d + cu \<le> lastts d'')"
    by blast
  have "private_data s' = Some d' \<and> lastts d' = lastts d + cu
          \<and> bill_calls (trace w') = (amount, acct) # bill_calls (trace w)
          \<and> (store_ok w \<longrightarrow>
                total_billed d' = total_billed d + amount \<and> bill_adjustments d' = 0)
          \<and> (\<not> store_ok w \<longrightarrow>
                total_billed d' = total_billed d \<and> bill_adjustments d' = bill_adjustments d)"
    using r by simp
  with r(1) later show ?thesis by blast
qed

theorem do_billing_failed_debit_witness:
  "\<not> store_ok (world_down 160500000)
   \<and> (\<exists>s' w' d'.
        do_billing g0 (session_with (Some 60) (Some (data_at 100000000))) (world_down 160500000)
          = Inr (s', w')
        \<and> private_data s' = Some d' \<and> lastts d' = 160000000
        \<and> bill_calls (trace w') = [(60, ''a'')]
        \<and> total_billed d' = 0 \<and> bill_adjustments d' = 0)"
proof -
  have down: "\<not> store_ok (world_down 160500000)"
    by (simp add: store_ok_def world_down_def world_at_def world_clock_def)
  from do_billing_failed_debit [where s = "session_with (Some 60) (Some (data_at 100000000))"
      and w = "world_down 160500000" and rate = 60 and acct = "''a''" and ans = 100000000
      and d = "data_at 100000000" and elapsed = 60500000 and cu = 60000000 and amount = 60
      and g = g0] down
  obtain s' w' d' where
    "do_billing g0 (session_with (Some 60) (Some (data_at 100000000))) (world_down 160500000)
          = Inr (s', w')"
    "private_data s' = Some d'" "lastts d' = 160000000"
    "bill_calls (trace w') = [(60, ''a'')]" "total_billed d' = 0" "bill_adjustments d' = 0"
    by (auto simp add: session_with_def world_down_def world_at_def world_clock_def data_at_def
        zero_data_def entry_data_def)
  with down show ?thesis by blast
qed

text \<open>
  The statement of the specification, that no later \<^verbatim>\<open>do_billing\<close> bills the window again,
  fails when a \<open>reset\<close> comes in between. With an increment of 60 seconds, billing at
  second 100 with redis out of reach advances the timestamp to second 160 and debits
  nothing; a reset at second 101 moves the timestamp back to second 101; billing again
  at second 101 calls \<^verbatim>\<open>bill_event\<close> a second time, for the 60 seconds from second 101, and
  this debit is sent.
\<close>

theorem do_billing_failed_debit_counterexample:
  "\<not> store_ok (world_down_once [100000000, 101000000, 101000000])
   \<and> map_option lastts (result_data (run_commands g0 [Cmd_flush]
        (session_with (Some 60) None) (world_down_once [100000000, 101000000, 101000000])))
       = Some 160000000
   \<and> bill_calls (result_trace (run_commands g0 [Cmd_flush]
        (session_with (Some 60) None) (world_down_once [100000000, 101000000, 101000000])))
       = [(60, ''a'')]
   \<and> debits (result_trace (run_commands g0 [Cmd_flush]
        (session_with (Some 60) None) (world_down_once [100000000, 101000000, 101000000])))
       = []
   \<and> map_option lastts (result_data (run_commands g0 [Cmd_flush, Cmd_reset]
        (session_with (Some 60) None) (world_down_once [100000000, 101000000, 101000000])))
       = Some 101000000
   \<and> map_option lastts (result_data (run_commands g0 [Cmd_flush, Cmd_reset, Cmd_flush]
        (session_with (Some 60) None) (world_down_once [100000000, 101000000, 101000000])))
       = Some 161000000
   \<and> bill_calls (result_trace (run_commands g0 [Cmd_flush, Cmd_reset, Cmd_flush]
        (session_with (Some 60) None) (world_down_once [100000000, 101000000, 101000000])))
       = [(60, ''a''), (60, ''a'')]
   \<and> debits (result_trace (run_commands g0 [Cmd_flush, Cmd_reset, Cmd_flush]
        (session_with (Some 60) None) (world_down_once [100000000, 101000000, 101000000])))
       = [(''rn_a'', 60000000)]"
  by (simp add: run_defs input_defs result_data_def result_trace_def store_ok_def
      world_down_once_def)

subsection \<open>The total billed\<close>

text \<open>
  C3 (as amended). Over a sequence of commands that ends, the total billed is unchanged
  when the sequence has no billing (\<open>flush\<close>) in it, and it does not decrease when the
  sequence has no \<open>resume\<close> in it, the rate is not negative and no adjustment is pending
  at the start, whether the debits succeed or fail.
\<close>

theorem total_billed_monotone:
  assumes "run_commands g cs s w = Inr (s', w')"
  shows "(Cmd_flush \<notin> set cs \<longrightarrow> total_of s' = total_of s)
       \<and> (Cmd_resume \<notin> set cs \<and> (\<forall>r. var_rednibble_rate s = Some r \<longrightarrow> 0 \<le> r)
            \<and> adjustment_of s \<le> 0 \<longrightarrow> total_of s \<le> total_of s')"
  using run_total_unchanged [OF assms] run_total_mono [OF assms] by blast

theorem total_billed_monotone_witness:
  "\<exists>s' w'. run_commands g0 [Cmd_flush, Cmd_pause, Cmd_flush, Cmd_check]
              (session_with None None) (world_clock [110000000, 120000000, 130000000])
            = Inr (s', w')
      \<and> total_of (session_with None None) \<le> total_of s'"
proof -
  obtain s' w' where r: "run_commands g0 [Cmd_flush, Cmd_pause, Cmd_flush, Cmd_check]
              (session_with None None) (world_clock [110000000, 120000000, 130000000])
            = Inr (s', w')"
    by (simp add: run_defs input_defs)
  from total_billed_monotone [OF r] have "total_of (session_with None None) \<le> total_of s'"
    by (simp add: session_with_def adjustment_of_def)
  with r show ?thesis by blast
qed

text \<open>
  The statement of the specification fails after a resume: the credit for the paused time can exceed
  the next charge. At 60 units a minute and an increment of 60 seconds, billing at
  second 100, a pause from second 101 to second 300 and billing again at second 300
  charge 180 seconds less a credit of 199: the session is not paused, both debits
  succeed, and the total falls from 60 to 41.
\<close>

theorem total_billed_monotone_counterexample:
  "map_option total_billed (result_data (run_commands g0 [Cmd_flush, Cmd_pause, Cmd_resume]
       (session_with (Some 60) None)
       (world_clock [100000000, 101000000, 300000000, 300000000]))) = Some 60
   \<and> map_option pausets (result_data (run_commands g0 [Cmd_flush, Cmd_pause, Cmd_resume]
       (session_with (Some 60) None)
       (world_clock [100000000, 101000000, 300000000, 300000000]))) = Some 0
   \<and> map_option total_billed
       (result_data (run_commands g0 [Cmd_flush, Cmd_pause, Cmd_resume, Cmd_flush]
       (session_with (Some 60) None)
       (world_clock [100000000, 101000000, 300000000, 300000000]))) = Some 41"
  by (simp add: run_defs input_defs result_data_def)

subsection \<open>The last billed timestamp\<close>

text \<open>
  C4 (as amended). After a command that ends, on a session with billing data, the
  timestamp is at least what it was when the command is anything but \<open>reset\<close>; after
  \<open>reset\<close> it is the clock reading, whatever it was before.
\<close>

theorem lastts_never_backward:
  assumes "rednibblebill_app_function g c s w = Inr (s', w')" and "private_data s = Some d"
  shows "\<exists>d'. private_data s' = Some d'
           \<and> (if c = Cmd_reset then lastts d' = time_now w (ticks w) else lastts d \<le> lastts d')"
  using assms by (rule app_lastts)

theorem lastts_never_backward_witness:
  "\<exists>s' w' d'.
     rednibblebill_app_function g0 Cmd_flush
        (session_with (Some 60) (Some (data_at 100000000))) (world_at 160500000) = Inr (s', w')
     \<and> private_data s' = Some d' \<and> 100000000 \<le> lastts d'"
proof -
  obtain s' w' where r: "rednibblebill_app_function g0 Cmd_flush
        (session_with (Some 60) (Some (data_at 100000000))) (world_at 160500000) = Inr (s', w')"
    using do_billing_billed [where s = "session_with (Some 60) (Some (data_at 100000000))"
      and w = "world_at 160500000" and rate = 60 and acct = "''a''" and ans = 100000000
      and d = "data_at 100000000" and elapsed = 60500000 and cu = 60000000 and amount = 60
      and g = g0]
    by (auto simp add: session_with_def world_at_def world_clock_def data_at_def zero_data_def
      entry_data_def convertible_def int_of_double_def rednibblebill_app_function_def)
  from lastts_never_backward [OF r, of "data_at 100000000"] r show ?thesis
    by (simp add: session_with_def data_at_def)
qed

text \<open>
  The statement of the specification fails for \<open>reset\<close>: increment mode bills ahead, so after billing at
  second 100 with an increment of 60 seconds the timestamp stands at second 160, and a
  reset at second 101 moves it back to second 101.
\<close>

theorem lastts_never_backward_counterexample:
  "map_option lastts (result_data (run_commands g0 [Cmd_flush]
       (session_with (Some 60) None) (world_clock [100000000, 101000000]))) = Some 160000000
   \<and> map_option lastts (result_data (run_commands g0 [Cmd_flush, Cmd_reset]
       (session_with (Some 60) None) (world_clock [100000000, 101000000]))) = Some 101000000"
  by (simp add: run_defs input_defs result_data_def)

subsection \<open>Sessions without billing information\<close>

text \<open>
  C5 (as amended). \<^verbatim>\<open>do_billing\<close> on a session without a rate or without an account
  does nothing but read the clock: no state changes, nothing is logged or sent, the
  lock is not touched. \<^verbatim>\<open>rednibblebill_adjust\<close> does nothing when the account is absent;
  it does not look at the rate. Pause, reset and check look at neither variable: they
  never send a debit, and pause and reset leave a session without billing data as it
  is. Resume does not look at the account, and reads the rate only on a paused session:
  on a session without billing data or not paused it returns, sends no debit and
  leaves the session as it is; on a paused session with a rate it returns, sends no
  debit, credits the paused time at that rate and clears the pause, with or without an
  account. (On a paused session without a rate resume hands a null pointer to
  \<^verbatim>\<open>atof\<close>; nothing is stated about that case.)
\<close>

theorem no_billing_information:
  "(var_rednibble_rate s = None \<or> var_rednibble_account s = None \<longrightarrow>
      do_billing g s w = Inr (s, w\<lparr>ticks := Suc (ticks w)\<rparr>))
   \<and> (var_rednibble_account s = None \<longrightarrow> rednibblebill_adjust s amount w = Inr w)
   \<and> debits (trace (snd (rednibblebill_pause s w))) = debits (trace w)
   \<and> debits (trace (snd (rednibblebill_reset s w))) = debits (trace w)
   \<and> debits (trace (snd (rednibblebill_check s w))) = debits (trace w)
   \<and> (private_data s = None \<longrightarrow>
          fst (rednibblebill_pause s w) = s \<and> fst (rednibblebill_reset s w) = s)
   \<and> ((case private_data s of None \<Rightarrow> True | Some d \<Rightarrow> pausets d = 0) \<longrightarrow>
          (\<exists>w'. rednibblebill_resume s w = Inr (s, w')
             \<and> debits (trace w') = debits (trace w)))
   \<and> (\<forall>d r. private_data s = Some d \<and> pausets d \<noteq> 0 \<and> var_rednibble_rate s = Some r \<longrightarrow>
          (\<exists>w'. rednibblebill_resume s w =
                  Inr (s\<lparr>private_data := Some
                          (d\<lparr>bill_adjustments := bill_adjustments d
                                + r / 60 * (real_of_int (time_now w (ticks w) - pausets d)
                                            / 1000000),
                             pausets := 0\<rparr>)\<rparr>, w')
             \<and> debits (trace w') = debits (trace w)))"
proof (intro conjI)
  show "var_rednibble_rate s = None \<or> var_rednibble_account s = None \<longrightarrow>
      do_billing g s w = Inr (s, w\<lparr>ticks := Suc (ticks w)\<rparr>)"
    by (auto simp: do_billing_def switch_micro_time_now_def Let_def split: option.splits)
  show "var_rednibble_account s = None \<longrightarrow> rednibblebill_adjust s amount w = Inr w"
    by (simp add: rednibblebill_adjust_def)
  show "debits (trace (snd (rednibblebill_pause s w))) = debits (trace w)"
    by (simp add: rednibblebill_pause_def world_defs Let_def split: option.splits)
  show "debits (trace (snd (rednibblebill_reset s w))) = debits (trace w)"
    by (simp add: rednibblebill_reset_def world_defs split: option.splits)
  show "debits (trace (snd (rednibblebill_check s w))) = debits (trace w)"
    by (simp add: rednibblebill_check_def world_defs split: option.splits)
  show "private_data s = None \<longrightarrow>
          fst (rednibblebill_pause s w) = s \<and> fst (rednibblebill_reset s w) = s"
    by (simp add: rednibblebill_pause_def rednibblebill_reset_def world_defs Let_def)
  show "(case private_data s of None \<Rightarrow> True | Some d \<Rightarrow> pausets d = 0) \<longrightarrow>
          (\<exists>w'. rednibblebill_resume s w = Inr (s, w')
             \<and> debits (trace w') = debits (trace w))"
    by (simp add: rednibblebill_resume_def world_defs split: option.splits)
  show "\<forall>d r. private_data s = Some d \<and> pausets d \<noteq> 0 \<and> var_rednibble_rate s = Some r \<longrightarrow>
          (\<exists>w'. rednibblebill_resume s w =
                  Inr (s\<lparr>private_data := Some
                          (d\<lparr>bill_adjustments := bill_adjustments d
                                + r / 60 * (real_of_int (time_now w (ticks w) - pausets d)
                                            / 1000000),
                             pausets := 0\<rparr>)\<rparr>, w')
             \<and> debits (trace w') = debits (trace w))"
    by (simp add: rednibblebill_resume_def world_defs)
qed

theorem no_billing_information_witness:
  "do_billing g0 session_plain (world_at 0) = Inr (session_plain, (world_at 0)\<lparr>ticks := 1\<rparr>)
   \<and> rednibblebill_adjust session_plain 5 (world_at 0) = Inr (world_at 0)
   \<and> fst (rednibblebill_pause session_plain (world_at 0)) = session_plain
   \<and> fst (rednibblebill_reset session_plain (world_at 0)) = session_plain
   \<and> debits (trace (snd (rednibblebill_pause session_plain (world_at 0)))) = []
   \<and> result_data (rednibblebill_resume session_plain (world_at 0)) = None
   \<and> debits (result_trace (rednibblebill_resume session_plain (world_at 0))) = []
   \<and> var_rednibble_account session_paused = None
   \<and> result_data (rednibblebill_resume session_paused (world_at 120000000))
       = Some ((data_at 100000000)\<lparr>bill_adjustments := 10\<rparr>)
   \<and> debits (result_trace (rednibblebill_resume session_paused (world_at 120000000))) = []"
proof -
  have plain: "do_billing g0 session_plain (world_at 0)
                 = Inr (session_plain, (world_at 0)\<lparr>ticks := 1\<rparr>)
   \<and> rednibblebill_adjust session_plain 5 (world_at 0) = Inr (world_at 0)
   \<and> fst (rednibblebill_pause session_plain (world_at 0)) = session_plain
   \<and> fst (rednibblebill_reset session_plain (world_at 0)) = session_plain
   \<and> debits (trace (snd (rednibblebill_pause session_plain (world_at 0)))) = []
   \<and> result_data (rednibblebill_resume session_plain (world_at 0)) = None
   \<and> debits (result_trace (rednibblebill_resume session_plain (world_at 0))) = []"
    using no_billing_information [of session_plain g0 "world_at 0" 5]
    by (auto simp add: session_plain_def world_at_def world_clock_def result_data_def
        result_trace_def)
  have paused: "var_rednibble_account session_paused = None
   \<and> result_data (rednibblebill_resume session_paused (world_at 120000000))
       = Some ((data_at 100000000)\<lparr>bill_adjustments := 10\<rparr>)
   \<and> debits (result_trace (rednibblebill_resume session_paused (world_at 120000000))) = []"
    using no_billing_information [of session_paused g0 "world_at 120000000" 5]
    by (auto simp add: session_paused_def session_with_def data_at_def zero_data_def
        world_at_def world_clock_def result_data_def result_trace_def)
  from plain paused show ?thesis by simp
qed

text \<open>
  The statement of the specification fails for \<open>adjust\<close>: with an account but no rate, an
  adjustment of 5 units sends a decrement of -5,000,000 to redis.
\<close>

theorem no_billing_information_counterexample:
  "var_rednibble_rate (session_plain\<lparr>var_rednibble_account := Some ''a''\<rparr>) = None
   \<and> debits (result_trace (rednibblebill_app_function g0 (Cmd_adjust 5)
        (session_plain\<lparr>var_rednibble_account := Some ''a''\<rparr>) (world_at 0)))
       = [(''rn_a'', - 5000000)]"
  by (simp add: session_plain_def run_defs input_defs result_trace_def)

subsection \<open>The balance store client\<close>

text \<open>
  C6. \<^verbatim>\<open>get_balance\<close> fails open: when the connection cannot be established, when the
  read command fails and when the key does not exist, the balance it returns is 1.0;
  after a successful read it is the stored integer divided by 1,000,000.
\<close>

theorem get_balance_fail_open:
  "fst (get_balance billaccount w) =
     (if \<not> connect_ok w (connects w) then 1.0
      else if \<not> command_ok w (commands w) then 1.0
      else (case redis_db w (redis_key billaccount) of
              None \<Rightarrow> 1.0
            | Some v \<Rightarrow> real_of_int v / 1000000))"
  by (simp add: get_balance_def redis_factory_def credis_connect_def credis_get_def
      switch_log_printf_def Let_def split: option.splits)

text \<open>
  The decrement \<^verbatim>\<open>bill_event\<close> sends when the ceiling of the amount in micro-units fits
  its 32-bit \<^verbatim>\<open>int\<close> and the connection is established: that ceiling, which divided by
  1,000,000 is at least the amount.
\<close>

lemma bill_event_in_range:
  assumes "- 2147483648 \<le> \<lceil>billamount * 1000000\<rceil>"
    and "\<lceil>billamount * 1000000\<rceil> \<le> 2147483647"
    and "connect_ok w (connects w)"
  shows "\<exists>st w'. bill_event billamount billaccount w = Inr (st, w')
           \<and> debits (trace w') =
               (redis_key billaccount, \<lceil>billamount * 1000000\<rceil>) # debits (trace w)
           \<and> billamount \<le> real_of_int \<lceil>billamount * 1000000\<rceil> / 1000000"
proof -
  have conv: "int_of_double (real_of_int \<lceil>billamount * 1000000\<rceil>)
                = Some \<lceil>billamount * 1000000\<rceil>"
    using assms(1,2) by (simp add: int_of_double_def)
  have "billamount * 1000000 \<le> real_of_int \<lceil>billamount * 1000000\<rceil>"
    by (rule le_of_int_ceiling)
  then have round_trip: "billamount \<le> real_of_int \<lceil>billamount * 1000000\<rceil> / 1000000"
    by (simp add: pos_le_divide_eq)
  show ?thesis
    using assms(3) conv round_trip
    by (simp add: bill_event_def redis_factory_def credis_connect_def credis_decrby_def
        switch_log_printf_def Let_def)
qed

text \<open>
  C10. For every amount the decrement sent to redis should be the ceiling of the amount
  in micro-units, so that the store is never debited less than the amount.
  \<^verbatim>\<open>bill_event\<close> computes that ceiling and converts it to a 32-bit \<^verbatim>\<open>int\<close>: for an amount
  of 3000 units the ceiling is 3,000,000,000, more than the largest \<^verbatim>\<open>int\<close>
  2,147,483,647, the conversion is undefined, and the decrement of 3,000,000,000 is
  not sent.
\<close>

theorem bill_event_overflow:
  "\<lceil>(3000::real) * 1000000\<rceil> = 3000000000
   \<and> (2147483647::int) < \<lceil>(3000::real) * 1000000\<rceil>
   \<and> int_of_double (real_of_int \<lceil>(3000::real) * 1000000\<rceil>) = None
   \<and> bill_event 3000 ''a'' (world_at 0) = Inl Undefined_conversion
   \<and> rednibblebill_adjust (session_with None None) (- 3000) (world_at 0)
       = Inl Undefined_conversion"
  by (simp add: bill_event_def rednibblebill_adjust_def redis_factory_def credis_connect_def
      int_of_double_def session_with_def world_at_def world_clock_def Let_def)

subsection \<open>Negative elapsed time\<close>

text \<open>
  C7 (as amended). When the clock is behind the last billed timestamp on an answered
  session that is not paused, \<^verbatim>\<open>do_billing\<close> returns without calling \<^verbatim>\<open>bill_event\<close> and
  without sending a debit; the timestamp, the total and the pending adjustment stay as
  they are; a warning is logged in continuous mode, and none in increment mode (where
  billing ahead makes this the normal case). The balance check still runs afterwards
  and may set the low-balance flag or pause billing.
\<close>

theorem negative_elapsed_guard:
  assumes "var_rednibble_rate s = Some rate" and "var_rednibble_account s = Some acct"
    and "answered s = Some ans" and "1 \<le> ans"
    and "d = entry_data s ans" and "pausets d \<le> 0"
    and "time_now w (ticks w) < lastts d"
  shows "\<exists>s' w' d'. do_billing g s w = Inr (s', w') \<and> private_data s' = Some d'
           \<and> lastts d' = lastts d \<and> total_billed d' = total_billed d
           \<and> bill_adjustments d' = bill_adjustments d
           \<and> bill_calls (trace w') = bill_calls (trace w)
           \<and> debits (trace w') = debits (trace w)
           \<and> warnings (trace w') =
               (if var_rednibble_increment s = None then Suc (warnings (trace w))
                else warnings (trace w))"
proof -
  have np: "pausets (entry_data s ans) \<le> 0" using assms(5,6) by simp
  have neg: "time_now w (ticks w) - lastts (entry_data s ans) < 0" using assms(5,7) by simp
  from do_billing_active_skip [OF assms(1-4) np neg, of g] assms(5) show ?thesis
    by blast
qed

theorem negative_elapsed_guard_witness:
  "\<exists>s' w' d'.
     do_billing g0 (session_with None (Some (data_at 200000000))) (world_at 160500000)
       = Inr (s', w')
     \<and> private_data s' = Some d' \<and> lastts d' = 200000000 \<and> total_billed d' = 0
     \<and> bill_adjustments d' = 0 \<and> bill_calls (trace w') = [] \<and> debits (trace w') = [] \<and> warnings (trace w') = 1"
  using negative_elapsed_guard [where s = "session_with None (Some (data_at 200000000))"
      and w = "world_at 160500000" and rate = 60 and acct = "''a''" and ans = 100000000
      and d = "data_at 200000000" and g = g0]
  by (simp add: entry_data_def input_defs)

text \<open>
  The statement of the specification fails in increment mode with a balance at or below the no-balance
  threshold: no warning is logged, and the billing data, not paused before the call,
  is paused after it.
\<close>

theorem negative_elapsed_guard_counterexample:
  "private_data (session_with (Some 60) (Some (data_at 200000000))) = Some (data_at 200000000)
   \<and> pausets (data_at 200000000) = 0
   \<and> map_option pausets (result_data (do_billing (g0\<lparr>nobal_amt := 1000\<rparr>)
         (session_with (Some 60) (Some (data_at 200000000))) (world_at 160500000)))
       = Some 160500000
   \<and> warnings (result_trace (do_billing (g0\<lparr>nobal_amt := 1000\<rparr>)
         (session_with (Some 60) (Some (data_at 200000000))) (world_at 160500000))) = 0
   \<and> transfers (result_trace (do_billing (g0\<lparr>nobal_amt := 1000\<rparr>)
         (session_with (Some 60) (Some (data_at 200000000))) (world_at 160500000))) \<noteq> []"
  by (simp add: run_defs input_defs result_data_def result_trace_def)

subsection \<open>No balance: pause, then reroute\<close>

text \<open>
  C8. On an answered session that is not paused and not in a terminal state, when the
  balance read after the charge is at or below the no-balance threshold,
  \<^verbatim>\<open>do_billing\<close> makes exactly one reroute, to the no-balance action, and the billing
  data the session holds at that moment, which is also the data it ends with, has a
  pause timestamp that is not zero: the clock reading taken by the pause. (That
  reading is not zero, and the no-balance action is set, as it is after
  \<^verbatim>\<open>load_config\<close>.)
\<close>

theorem pause_before_reroute:
  assumes rate: "var_rednibble_rate s = Some rate"
    and acct: "var_rednibble_account s = Some acct"
    and ans: "answered s = Some ans" "1 \<le> ans"
    and np: "pausets (entry_data s ans) \<le> 0"
    and st: "chan_state s \<noteq> CS_REPORTING" "chan_state s \<noteq> CS_HANGUP"
    and bal: "post_charge_balance s w = Some b" "b \<le> nobal_of g s"
    and dest: "nobal_action g = Some dest"
    and clock: "time_now w (Suc (ticks w)) \<noteq> 0"
  shows "\<exists>s' w' dp. do_billing g s w = Inr (s', w') \<and> private_data s' = Some dp
           \<and> pausets dp \<noteq> 0
           \<and> pausets dp = (if pausets (entry_data s ans) = 0 then time_now w (Suc (ticks w))
                            else pausets (entry_data s ans))
           \<and> transfers (trace w') = (dest, Some dp) # transfers (trace w)"
proof -
  from bal(1) rate acct ans(1) obtain d1 s1 w1 where
    c: "do_billing_charge (time_now w (ticks w)) rate (var_rednibble_increment s) acct
               (entry_data s ans) s (charge_world s w) = Inr (d1, s1, w1)"
    and b: "b = fst (get_balance acct w1)"
    by (auto simp: post_charge_balance_def split: sum.splits)
  have cw: "ticks (charge_world s w) = Suc (ticks w)" "time_now (charge_world s w) = time_now w"
    "transfers (trace (charge_world s w)) = transfers (trace w)"
    by (auto simp: charge_world_def world_defs Let_def split: option.splits)
  from charge_frame [OF c] charge_transfers [OF c] cw
  have f: "chan_state s1 = chan_state s" "ticks w1 = Suc (ticks w)" "time_now w1 = time_now w"
    "transfers (trace w1) = transfers (trace w)" "pausets d1 = pausets (entry_data s ans)"
    by simp_all
  have "\<exists>s' w' dp. do_billing_verify g (nobal_of g s) (lowbal_of g s) acct d1 s1 w1 = (s', w')
           \<and> private_data s' = Some dp \<and> pausets dp \<noteq> 0
           \<and> pausets dp = (if pausets d1 = 0 then time_now w1 (ticks w1) else pausets d1)
           \<and> transfers (trace w') = (dest, Some dp) # transfers (trace w1)"
    using b bal(2) st f clock by (intro verify_nobal [OF _ _ _ dest]) simp_all
  then obtain s' w2 dp where
    v: "do_billing_verify g (nobal_of g s) (lowbal_of g s) acct d1 s1 w1 = (s', w2)"
    and r: "private_data s' = Some dp" "pausets dp \<noteq> 0"
      "pausets dp = (if pausets d1 = 0 then time_now w1 (ticks w1) else pausets d1)"
      "transfers (trace w2) = (dest, Some dp) # transfers (trace w1)"
    by blast
  have "do_billing g s w = Inr (s', switch_mutex_unlock w2)"
    using do_billing_active [OF rate acct ans np, of g w] c v by simp
  with r f show ?thesis
    by (intro exI [of _ s'] exI [of _ "switch_mutex_unlock w2"] exI [of _ dp])
      (simp add: switch_mutex_unlock_def)
qed

theorem pause_before_reroute_witness:
  "\<exists>s' w' dp.
     do_billing (g0\<lparr>nobal_amt := 1000\<rparr>) (session_with (Some 60) (Some (data_at 100000000)))
        (world_at 160500000) = Inr (s', w')
     \<and> private_data s' = Some dp \<and> pausets dp = 160500000
     \<and> transfers (trace w') = [(''hangup'', Some dp)]"
  using pause_before_reroute [where s = "session_with (Some 60) (Some (data_at 100000000))"
      and w = "world_at 160500000" and rate = 60 and acct = "''a''" and ans = 100000000
      and g = "g0\<lparr>nobal_amt := 1000\<rparr>" and b = 440 and dest = "''hangup''"]
  by (simp add: post_charge_balance_def entry_data_def nobal_of_def charge_world_def
      run_defs input_defs)

subsection \<open>The lock\<close>

text \<open>
  C9. Every operation that takes the global lock should release it on every return
  path. \<^verbatim>\<open>rednibblebill_pause\<close> on a session without billing data does not: it returns
  from inside the locked region, and the lock is held one level deeper than on entry.
\<close>

theorem pause_uninitialized_keeps_lock:
  "mutex (snd (rednibblebill_pause (session_with None None) (world_at 0)))
     = Suc (mutex (world_at 0))"
  by (simp add: rednibblebill_pause_def switch_micro_time_now_def switch_mutex_lock_def
      switch_log_printf_def session_with_def world_at_def world_clock_def)

end
